theory Spec2Isabelle
  imports Main "HOL-Library.Word" "HOL-Library.Code_Target_Nat"
begin

section \<open>The configuration record\<close>

text \<open>
  Modelled from the spec: the header \<^verbatim>\<open>config.h\<close> that declares \<^verbatim>\<open>FsearchConfig\<close> is
  missing. The record has the fields that \<^verbatim>\<open>config.c\<close> reads and writes, with the types
  of the values assigned to them there: eleven scalars (ten \<^verbatim>\<open>bool\<close>, and \<^verbatim>\<open>num_results\<close>,
  which receives the \<^verbatim>\<open>uint32_t\<close> result of \<^verbatim>\<open>config_load_integer\<close>) and the \<^verbatim>\<open>GList\<close> of
  location strings, kept as a list in list order.
\<close>

record FsearchConfig =
  enable_list_tooltips :: bool
  enable_dark_theme :: bool
  show_menubar :: bool
  show_statusbar :: bool
  show_filter :: bool
  show_search_button :: bool
  match_case :: bool
  enable_regex :: bool
  search_in_path :: bool
  limit_results :: bool
  num_results :: "32 word"
  locations :: "string list"

section \<open>The GLib key file\<close>

text \<open>
  \<^verbatim>\<open>GKeyFile\<close> is library code outside the repository. It is modelled on the behaviour
  GLib documents: a key file is a sequence of groups, each a sequence of keys with a raw
  text value, in file order. The typed setters store a textual rendering of the value and
  the typed getters interpret the raw text, reporting one of the \<^verbatim>\<open>GKeyFileError\<close> codes
  when the group or key is absent or the text cannot be interpreted.
\<close>

datatype GKeyFileError =
    G_KEY_FILE_ERROR_UNKNOWN_ENCODING
  | G_KEY_FILE_ERROR_PARSE
  | G_KEY_FILE_ERROR_NOT_FOUND
  | G_KEY_FILE_ERROR_KEY_NOT_FOUND
  | G_KEY_FILE_ERROR_GROUP_NOT_FOUND
  | G_KEY_FILE_ERROR_INVALID_VALUE

type_synonym GKeyFile = "(string \<times> (string \<times> string) list) list"

definition g_key_file_new :: GKeyFile where
  "g_key_file_new = []"

text \<open>Setting a key keeps its place when it exists and appends it to its group otherwise.\<close>

fun set_pair :: "string \<Rightarrow> string \<Rightarrow> (string \<times> string) list \<Rightarrow> (string \<times> string) list" where
  "set_pair k v [] = [(k, v)]"
| "set_pair k v ((k', v') # kvs) =
     (if k' = k then (k, v) # kvs else (k', v') # set_pair k v kvs)"

fun g_key_file_set_value :: "GKeyFile \<Rightarrow> string \<Rightarrow> string \<Rightarrow> string \<Rightarrow> GKeyFile" where
  "g_key_file_set_value [] g k v = [(g, [(k, v)])]"
| "g_key_file_set_value ((g', kvs) # gs) g k v =
     (if g' = g then (g, set_pair k v kvs) # gs
      else (g', kvs) # g_key_file_set_value gs g k v)"

definition g_key_file_get_value :: "GKeyFile \<Rightarrow> string \<Rightarrow> string \<Rightarrow> GKeyFileError + string" where
  "g_key_file_get_value kf g k =
     (case map_of kf g of
        None \<Rightarrow> Inl G_KEY_FILE_ERROR_GROUP_NOT_FOUND
      | Some kvs \<Rightarrow>
          (case map_of kvs k of
             None \<Rightarrow> Inl G_KEY_FILE_ERROR_KEY_NOT_FOUND
           | Some v \<Rightarrow> Inr v))"

text \<open>The raw value of a key, when the group and the key are there.\<close>

definition raw_value :: "GKeyFile \<Rightarrow> string \<Rightarrow> string \<Rightarrow> string option" where
  "raw_value kf g k = (case g_key_file_get_value kf g k of Inl e \<Rightarrow> None | Inr v \<Rightarrow> Some v)"

definition group_entries :: "GKeyFile \<Rightarrow> string \<Rightarrow> (string \<times> string) list" where
  "group_entries kf g = (case map_of kf g of None \<Rightarrow> [] | Some kvs \<Rightarrow> kvs)"

subsection \<open>Characters\<close>

definition g_ascii_isspace :: "char \<Rightarrow> bool" where
  "g_ascii_isspace c \<longleftrightarrow>
     c = CHR 0x20 \<or> c = CHR 0x09 \<or> c = CHR 0x0A \<or> c = CHR 0x0C \<or> c = CHR 0x0D"

definition isspace :: "char \<Rightarrow> bool" where
  "isspace c \<longleftrightarrow> g_ascii_isspace c \<or> c = CHR 0x0B"

definition isdigit :: "char \<Rightarrow> bool" where
  "isdigit c \<longleftrightarrow> 48 \<le> (of_char c :: nat) \<and> (of_char c :: nat) \<le> 57"

subsection \<open>Booleans\<close>

definition g_key_file_set_boolean :: "GKeyFile \<Rightarrow> string \<Rightarrow> string \<Rightarrow> bool \<Rightarrow> GKeyFile" where
  "g_key_file_set_boolean kf g k b = g_key_file_set_value kf g k (if b then ''true'' else ''false'')"

text \<open>Trailing white space is ignored; \<^verbatim>\<open>true\<close>, \<^verbatim>\<open>1\<close>, \<^verbatim>\<open>false\<close> and \<^verbatim>\<open>0\<close> are accepted.\<close>

definition g_key_file_parse_value_as_boolean :: "string \<Rightarrow> GKeyFileError + bool" where
  "g_key_file_parse_value_as_boolean v =
     (let t = rev (dropWhile g_ascii_isspace (rev v)) in
      if t = ''true'' \<or> t = ''1'' then Inr True
      else if t = ''false'' \<or> t = ''0'' then Inr False
      else Inl G_KEY_FILE_ERROR_INVALID_VALUE)"

definition g_key_file_get_boolean :: "GKeyFile \<Rightarrow> string \<Rightarrow> string \<Rightarrow> GKeyFileError + bool" where
  "g_key_file_get_boolean kf g k =
     (case g_key_file_get_value kf g k of
        Inl e \<Rightarrow> Inl e
      | Inr v \<Rightarrow> g_key_file_parse_value_as_boolean v)"

subsection \<open>Integers\<close>

text \<open>The decimal rendering of \<^verbatim>\<open>%d\<close>.\<close>

fun show_nat :: "nat \<Rightarrow> string" where
  "show_nat n =
     (if n < 10 then [char_of (48 + n)]
      else show_nat (n div 10) @ [char_of (48 + n mod 10)])"

declare show_nat.simps [simp del]

definition show_int :: "int \<Rightarrow> string" where
  "show_int i = (if i < 0 then CHR ''-'' # show_nat (nat (- i)) else show_nat (nat i))"

text \<open>
  \<^verbatim>\<open>strtol\<close> in base 10: white space, an optional sign, then the longest run of digits.
  It returns the number read and the unread rest, which is the whole input when there is
  no digit. The number is unbounded here; the range check is made by the caller below,
  where the C library would report \<^verbatim>\<open>ERANGE\<close> to the same effect.
\<close>

fun digits :: "nat \<Rightarrow> string \<Rightarrow> nat \<times> string" where
  "digits acc [] = (acc, [])"
| "digits acc (c # cs) =
     (if isdigit c then digits (10 * acc + (of_char c - 48)) cs else (acc, c # cs))"

definition strtol :: "string \<Rightarrow> int \<times> string" where
  "strtol s =
     (let t = dropWhile isspace s;
          neg = (case t of [] \<Rightarrow> False | c # _ \<Rightarrow> c = CHR ''-'');
          u = (case t of [] \<Rightarrow> [] | c # r \<Rightarrow> if c = CHR ''-'' \<or> c = CHR ''+'' then r else t)
      in case u of
           [] \<Rightarrow> (0, s)
         | d # _ \<Rightarrow>
             if isdigit d
             then (case digits 0 u of (n, rest) \<Rightarrow> (if neg then - int n else int n, rest))
             else (0, s))"

text \<open>A \<^verbatim>\<open>gint\<close> is a 32-bit signed integer, here an \<open>int\<close> within that range.\<close>

definition g_key_file_set_integer :: "GKeyFile \<Rightarrow> string \<Rightarrow> string \<Rightarrow> int \<Rightarrow> GKeyFile" where
  "g_key_file_set_integer kf g k i = g_key_file_set_value kf g k (show_int i)"

definition g_key_file_parse_value_as_integer :: "string \<Rightarrow> GKeyFileError + int" where
  "g_key_file_parse_value_as_integer v =
     (case strtol v of
        (long_value, eof_int) \<Rightarrow>
          if v = [] \<or> (case eof_int of [] \<Rightarrow> False | c # _ \<Rightarrow> \<not> g_ascii_isspace c)
          then Inl G_KEY_FILE_ERROR_INVALID_VALUE
          else if long_value < - (2 ^ 31) \<or> 2 ^ 31 \<le> long_value
          then Inl G_KEY_FILE_ERROR_INVALID_VALUE
          else Inr long_value)"

definition g_key_file_get_integer :: "GKeyFile \<Rightarrow> string \<Rightarrow> string \<Rightarrow> GKeyFileError + int" where
  "g_key_file_get_integer kf g k =
     (case g_key_file_get_value kf g k of
        Inl e \<Rightarrow> Inl e
      | Inr v \<Rightarrow> g_key_file_parse_value_as_integer v)"

subsection \<open>Strings\<close>

text \<open>
  A string is stored with leading blanks written \<^verbatim>\<open>\s\<close> and \<^verbatim>\<open>\t\<close>, and every newline,
  carriage return and backslash written \<^verbatim>\<open>\n\<close>, \<^verbatim>\<open>\r\<close> and \<^verbatim>\<open>\\\<close>. The flag says whether
  only blanks and escaped characters have been seen so far.
\<close>

fun g_key_file_parse_string_as_value :: "bool \<Rightarrow> string \<Rightarrow> string" where
  "g_key_file_parse_string_as_value lead [] = []"
| "g_key_file_parse_string_as_value lead (c # cs) =
     (if c = CHR 0x20 then
        (if lead then [CHR 0x5C, CHR ''s''] else [c]) @ g_key_file_parse_string_as_value lead cs
      else if c = CHR 0x09 then
        (if lead then [CHR 0x5C, CHR ''t''] else [c]) @ g_key_file_parse_string_as_value lead cs
      else if c = CHR 0x0A then [CHR 0x5C, CHR ''n''] @ g_key_file_parse_string_as_value lead cs
      else if c = CHR 0x0D then [CHR 0x5C, CHR ''r''] @ g_key_file_parse_string_as_value lead cs
      else if c = CHR 0x5C then [CHR 0x5C, CHR 0x5C] @ g_key_file_parse_string_as_value lead cs
      else c # g_key_file_parse_string_as_value False cs)"

definition g_key_file_set_string :: "GKeyFile \<Rightarrow> string \<Rightarrow> string \<Rightarrow> string \<Rightarrow> GKeyFile" where
  "g_key_file_set_string kf g k s =
     g_key_file_set_value kf g k (g_key_file_parse_string_as_value True s)"

text \<open>
  Reading undoes the escapes; a backslash at the end of the value or before any other
  character is an invalid value.
\<close>

fun g_key_file_parse_value_as_string :: "string \<Rightarrow> GKeyFileError + string" where
  "g_key_file_parse_value_as_string [] = Inr []"
| "g_key_file_parse_value_as_string [c] =
     (if c = CHR 0x5C then Inl G_KEY_FILE_ERROR_INVALID_VALUE else Inr [c])"
| "g_key_file_parse_value_as_string (c # d # cs) =
     (if c = CHR 0x5C then
        (if d = CHR ''s'' then map_sum id ((#) (CHR 0x20)) (g_key_file_parse_value_as_string cs)
         else if d = CHR ''n'' then map_sum id ((#) (CHR 0x0A)) (g_key_file_parse_value_as_string cs)
         else if d = CHR ''t'' then map_sum id ((#) (CHR 0x09)) (g_key_file_parse_value_as_string cs)
         else if d = CHR ''r'' then map_sum id ((#) (CHR 0x0D)) (g_key_file_parse_value_as_string cs)
         else if d = CHR 0x5C then map_sum id ((#) (CHR 0x5C)) (g_key_file_parse_value_as_string cs)
         else Inl G_KEY_FILE_ERROR_INVALID_VALUE)
      else map_sum id ((#) c) (g_key_file_parse_value_as_string (d # cs)))"

text \<open>
  \<^verbatim>\<open>g_utf8_validate\<close>: the bytes are well-formed UTF-8, that is a sequence of one-byte
  characters below 128 and of multi-byte characters with a lead byte and one to three
  continuation bytes, without overlong forms, surrogates or code points above 10FFFF.
\<close>

definition utf8_tail :: "char \<Rightarrow> bool" where
  "utf8_tail c \<longleftrightarrow> 128 \<le> (of_char c :: nat) \<and> (of_char c :: nat) \<le> 191"

fun g_utf8_validate :: "string \<Rightarrow> bool" where
  "g_utf8_validate [] = True"
| "g_utf8_validate (c # cs) =
     (let b = (of_char c :: nat) in
      if b < 128 then g_utf8_validate cs
      else if 194 \<le> b \<and> b \<le> 223 then
        (case cs of
           c1 # r \<Rightarrow> utf8_tail c1 \<and> g_utf8_validate r
         | _ \<Rightarrow> False)
      else if 224 \<le> b \<and> b \<le> 239 then
        (case cs of
           c1 # c2 # r \<Rightarrow>
             (if b = 224 then 160 else 128) \<le> (of_char c1 :: nat) \<and>
             (of_char c1 :: nat) \<le> (if b = 237 then 159 else 191) \<and>
             utf8_tail c2 \<and> g_utf8_validate r
         | _ \<Rightarrow> False)
      else if 240 \<le> b \<and> b \<le> 244 then
        (case cs of
           c1 # c2 # c3 # r \<Rightarrow>
             (if b = 240 then 144 else 128) \<le> (of_char c1 :: nat) \<and>
             (of_char c1 :: nat) \<le> (if b = 244 then 143 else 191) \<and>
             utf8_tail c2 \<and> utf8_tail c3 \<and> g_utf8_validate r
         | _ \<Rightarrow> False)
      else False)"

text \<open>
  The string getter refuses a raw value that is not UTF-8 before it undoes the escapes.
\<close>

definition g_key_file_get_string :: "GKeyFile \<Rightarrow> string \<Rightarrow> string \<Rightarrow> GKeyFileError + string" where
  "g_key_file_get_string kf g k =
     (case g_key_file_get_value kf g k of
        Inl e \<Rightarrow> Inl e
      | Inr v \<Rightarrow>
          if \<not> g_utf8_validate v then Inl G_KEY_FILE_ERROR_UNKNOWN_ENCODING
          else g_key_file_parse_value_as_string v)"

section \<open>The environment\<close>

text \<open>
  What the program sees of the machine: the user's configuration directory as
  \<^verbatim>\<open>g_get_user_config_dir\<close> reports it, what each path holds, and whether a write to a
  path goes through (its directory exists, permissions and space allow it). A file
  either is absent or unreadable, or does not have the structure of a key file, or holds
  a key file. The text of the file is not modelled: a file is recorded by the groups,
  keys and raw values that GLib's parser reads from it.
\<close>

datatype disk_file = NoFile | Malformed | KeyFileData GKeyFile

record environment =
  user_config_dir :: string
  files :: "string \<Rightarrow> disk_file"
  writable :: "string \<Rightarrow> bool"

definition g_key_file_load_from_file :: "string \<Rightarrow> environment \<Rightarrow> GKeyFileError + GKeyFile" where
  "g_key_file_load_from_file path env =
     (case files env path of
        NoFile \<Rightarrow> Inl G_KEY_FILE_ERROR_NOT_FOUND
      | Malformed \<Rightarrow> Inl G_KEY_FILE_ERROR_PARSE
      | KeyFileData kf \<Rightarrow> Inr kf)"

text \<open>
  A key file is written as lines \<^verbatim>\<open>key=value\<close> with the raw value as it is, and the
  parser skips the white space that follows \<^verbatim>\<open>=\<close>. So what is read back from a written
  key file has every raw value without its leading white space.
\<close>

definition key_file_as_read :: "GKeyFile \<Rightarrow> GKeyFile" where
  "key_file_as_read kf =
     map (\<lambda>(g, kvs). (g, map (\<lambda>(k, v). (k, dropWhile g_ascii_isspace v)) kvs)) kf"

text \<open>
  Of the white space that the parser skips, the string setter leaves only a form feed
  at the start of a string as it is.
\<close>

definition leading_form_feed :: "string \<Rightarrow> bool" where
  "leading_form_feed s = (case s of [] \<Rightarrow> False | c # _ \<Rightarrow> c = CHR 0x0C)"

definition g_key_file_save_to_file :: "GKeyFile \<Rightarrow> string \<Rightarrow> environment \<Rightarrow> bool \<times> environment" where
  "g_key_file_save_to_file kf path env =
     (if writable env path
      then (True, env\<lparr>files := (files env)(path := KeyFileData (key_file_as_read kf))\<rparr>)
      else (False, env))"

section \<open>config.c\<close>

definition config_file_name :: string where
  "config_file_name = ''fsearch.conf''"

definition config_folder_name :: string where
  "config_folder_name = ''fsearch''"

definition PATH_MAX :: nat where
  "PATH_MAX = 4096"

text \<open>\<^verbatim>\<open>snprintf\<close> into a buffer of \<open>len\<close> bytes keeps at most \<open>len - 1\<close> characters.\<close>

definition build_config_dir :: "environment \<Rightarrow> nat \<Rightarrow> string" where
  "build_config_dir env len =
     take (len - 1) (user_config_dir env @ ''/'' @ config_folder_name)"

definition build_config_path :: "environment \<Rightarrow> nat \<Rightarrow> string" where
  "build_config_path env len =
     take (len - 1)
       (user_config_dir env @ ''/'' @ config_folder_name @ ''/'' @ config_file_name)"

text \<open>
  The three loaders return the default when the getter reports any error. The message
  that \<^verbatim>\<open>config_load_handle_error\<close> prints for some of the errors does not reach the
  result and is left out.
\<close>

definition config_load_integer :: "GKeyFile \<Rightarrow> string \<Rightarrow> string \<Rightarrow> 32 word \<Rightarrow> 32 word" where
  "config_load_integer key_file group_name key default_value =
     (case g_key_file_get_integer key_file group_name key of
        Inl error \<Rightarrow> default_value
      | Inr result \<Rightarrow> word_of_int result)"

definition config_load_boolean :: "GKeyFile \<Rightarrow> string \<Rightarrow> string \<Rightarrow> bool \<Rightarrow> bool" where
  "config_load_boolean key_file group_name key default_value =
     (case g_key_file_get_boolean key_file group_name key of
        Inl error \<Rightarrow> default_value
      | Inr result \<Rightarrow> result)"

definition config_load_string :: "GKeyFile \<Rightarrow> string \<Rightarrow> string \<Rightarrow> string option \<Rightarrow> string option" where
  "config_load_string key_file group_name key default_value =
     (case g_key_file_get_string key_file group_name key of
        Inl error \<Rightarrow> default_value
      | Inr result \<Rightarrow> Some result)"

text \<open>
  The key of a location: \<^verbatim>\<open>snprintf (key, 100, "location_%d", pos)\<close> with \<open>pos\<close> a
  \<^verbatim>\<open>uint32_t\<close>, which \<^verbatim>\<open>%d\<close> prints as a signed number. It is at most 20 characters.
\<close>

definition location_key :: "32 word \<Rightarrow> string" where
  "location_key pos = take 99 (''location_'' @ show_int (sint pos))"

text \<open>
  The loop of \<^verbatim>\<open>load_config\<close> that reads the locations has no bound of its own: it ends
  at the first key that gives no string. The counter wraps around.
\<close>

partial_function (option) load_locations :: "GKeyFile \<Rightarrow> 32 word \<Rightarrow> string list \<Rightarrow> string list option" where
  "load_locations key_file pos locs =
     (case config_load_string key_file ''Database'' (location_key pos) None of
        Some v \<Rightarrow> load_locations key_file (pos + 1) (locs @ [v])
      | None \<Rightarrow> Some locs)"

declare load_locations.simps [code]

definition load_scalars :: "GKeyFile \<Rightarrow> FsearchConfig \<Rightarrow> FsearchConfig" where
  "load_scalars key_file config =
     config
       \<lparr> enable_list_tooltips := config_load_boolean key_file ''Interface'' ''enable_list_tooltips'' True,
         enable_dark_theme := config_load_boolean key_file ''Interface'' ''enable_dark_theme'' False,
         show_menubar := config_load_boolean key_file ''Interface'' ''show_menubar'' True,
         show_statusbar := config_load_boolean key_file ''Interface'' ''show_statusbar'' True,
         show_filter := config_load_boolean key_file ''Interface'' ''show_filter'' True,
         show_search_button := config_load_boolean key_file ''Interface'' ''show_search_button'' True,
         match_case := config_load_boolean key_file ''Search'' ''match_case'' False,
         enable_regex := config_load_boolean key_file ''Search'' ''enable_regex'' False,
         search_in_path := config_load_boolean key_file ''Search'' ''search_in_path'' False,
         limit_results := config_load_boolean key_file ''Search'' ''limit_results'' False,
         num_results := config_load_integer key_file ''Search'' ''num_results'' 10000 \<rparr>"

text \<open>
  \<^verbatim>\<open>load_config\<close> returns its boolean result and the record as the call leaves it;
  \<open>None\<close> stands for a call that never returns.
\<close>

definition load_config :: "FsearchConfig \<Rightarrow> environment \<Rightarrow> (bool \<times> FsearchConfig) option" where
  "load_config config env =
     (case g_key_file_load_from_file (build_config_path env PATH_MAX) env of
        Inr key_file \<Rightarrow>
          (let config' = load_scalars key_file config in
           case load_locations key_file 1 (locations config') of
             None \<Rightarrow> None
           | Some locs \<Rightarrow> Some (True, config'\<lparr>locations := locs\<rparr>))
      | Inl error \<Rightarrow> Some (False, config))"

definition load_default_config :: "FsearchConfig \<Rightarrow> bool \<times> FsearchConfig" where
  "load_default_config config =
     (True,
      config
        \<lparr> match_case := False,
          enable_regex := False,
          search_in_path := False,
          limit_results := True,
          num_results := 10000,
          enable_dark_theme := False,
          enable_list_tooltips := True,
          show_menubar := True,
          show_statusbar := True,
          show_filter := True,
          show_search_button := True,
          locations := [] \<rparr>)"

fun save_locations :: "GKeyFile \<Rightarrow> 32 word \<Rightarrow> string list \<Rightarrow> GKeyFile" where
  "save_locations key_file pos [] = key_file"
| "save_locations key_file pos (l # ls) =
     save_locations (g_key_file_set_string key_file ''Database'' (location_key pos) l) (pos + 1) ls"

text \<open>The key file that \<^verbatim>\<open>save_config\<close> fills before it writes it.\<close>

definition save_scalars :: "FsearchConfig \<Rightarrow> GKeyFile" where
  "save_scalars config =
     (let key_file = g_key_file_new;
          key_file = g_key_file_set_boolean key_file ''Interface'' ''enable_list_tooltips'' (enable_list_tooltips config);
          key_file = g_key_file_set_boolean key_file ''Interface'' ''enable_dark_theme'' (enable_dark_theme config);
          key_file = g_key_file_set_boolean key_file ''Interface'' ''show_menubar'' (show_menubar config);
          key_file = g_key_file_set_boolean key_file ''Interface'' ''show_statusbar'' (show_statusbar config);
          key_file = g_key_file_set_boolean key_file ''Interface'' ''show_filter'' (show_filter config);
          key_file = g_key_file_set_boolean key_file ''Interface'' ''show_search_button'' (show_search_button config);
          key_file = g_key_file_set_boolean key_file ''Search'' ''search_in_path'' (search_in_path config);
          key_file = g_key_file_set_boolean key_file ''Search'' ''enable_regex'' (enable_regex config);
          key_file = g_key_file_set_boolean key_file ''Search'' ''match_case'' (match_case config);
          key_file = g_key_file_set_boolean key_file ''Search'' ''limit_results'' (limit_results config)
      in g_key_file_set_integer key_file ''Search'' ''num_results'' (sint (num_results config)))"

definition save_key_file :: "FsearchConfig \<Rightarrow> GKeyFile" where
  "save_key_file config =
     (let key_file = save_scalars config
      in if locations config \<noteq> [] then save_locations key_file 1 (locations config)
         else key_file)"

text \<open>
  \<^verbatim>\<open>save_config\<close> returns its boolean result, the record as the call leaves it, and the
  environment after the write.
\<close>

definition save_config :: "FsearchConfig \<Rightarrow> environment \<Rightarrow> bool \<times> FsearchConfig \<times> environment" where
  "save_config config env =
     (case g_key_file_save_to_file (save_key_file config) (build_config_path env PATH_MAX) env of
        (True, env') \<Rightarrow> (True, config, env')
      | (False, env') \<Rightarrow> (False, config, env'))"

section \<open>Sample records and environments\<close>

text \<open>
  A machine with no configuration file yet, where writing is allowed; the same machine
  with a given key file at the path of the configuration file; one where the file is
  there but is not a key file; and one where no write goes through.
\<close>

definition example_env :: environment where
  "example_env =
     \<lparr> user_config_dir = ''/home/user/.config'',
       files = (\<lambda>path. NoFile),
       writable = (\<lambda>path. True) \<rparr>"

definition env_with_file :: "GKeyFile \<Rightarrow> environment" where
  "env_with_file kf =
     example_env
       \<lparr> files := (files example_env)(''/home/user/.config/fsearch/fsearch.conf'' := KeyFileData kf) \<rparr>"

definition malformed_env :: environment where
  "malformed_env =
     example_env
       \<lparr> files := (files example_env)(''/home/user/.config/fsearch/fsearch.conf'' := Malformed) \<rparr>"

definition readonly_env :: environment where
  "readonly_env = example_env \<lparr> writable := (\<lambda>path. False) \<rparr>"

text \<open>A record as \<^verbatim>\<open>calloc\<close> gives it, and one with three locations and a large limit.\<close>

definition zeroed_config :: FsearchConfig where
  "zeroed_config =
     \<lparr> enable_list_tooltips = False, enable_dark_theme = False, show_menubar = False,
       show_statusbar = False, show_filter = False, show_search_button = False,
       match_case = False, enable_regex = False, search_in_path = False,
       limit_results = False, num_results = 0, locations = [] \<rparr>"

definition example_config :: FsearchConfig where
  "example_config =
     \<lparr> enable_list_tooltips = False, enable_dark_theme = True, show_menubar = True,
       show_statusbar = False, show_filter = True, show_search_button = False,
       match_case = True, enable_regex = False, search_in_path = True,
       limit_results = True, num_results = 3000000000,
       locations =
         [''/home/user'', [CHR ''/'', CHR ''c'', CHR ''a'', CHR ''f'', CHR 0xC3, CHR 0xA9], '' /mnt/my disk''] \<rparr>"

text \<open>
  Two records whose locations do not come back from the file: one with a path whose
  name is in Latin-1, not UTF-8, and one with a path that begins with a form feed.
\<close>

definition latin1_config :: FsearchConfig where
  "latin1_config = example_config \<lparr> locations := [[CHR ''/'', CHR 0xE9], ''/b''] \<rparr>"

definition form_feed_config :: FsearchConfig where
  "form_feed_config = example_config \<lparr> locations := [[CHR 0x0C, CHR ''/'', CHR ''x'']] \<rparr>"

section \<open>Auxiliary facts\<close>

subsection \<open>Key file lookups\<close>

lemma map_of_set_pair: "map_of (set_pair k v kvs) = (map_of kvs)(k \<mapsto> v)"
  by (induction kvs) auto

lemma map_of_set_value:
  "map_of (g_key_file_set_value kf g k v) = (map_of kf)(g \<mapsto> set_pair k v (group_entries kf g))"
  by (induction kf) (auto simp: group_entries_def)

lemma raw_value_set_value:
  "raw_value (g_key_file_set_value kf g k v) g' k' =
     (if g' = g \<and> k' = k then Some v else raw_value kf g' k')"
  by (auto simp: raw_value_def g_key_file_get_value_def map_of_set_value map_of_set_pair
      group_entries_def split: option.splits)

lemma group_entries_set_value:
  "group_entries (g_key_file_set_value kf g k v) g' =
     (if g' = g then set_pair k v (group_entries kf g) else group_entries kf g')"
  by (simp add: group_entries_def map_of_set_value)

lemma set_pair_fresh: "k \<notin> fst ` set kvs \<Longrightarrow> set_pair k v kvs = kvs @ [(k, v)]"
  by (induction kvs) auto

subsection \<open>Decimal numbers\<close>

lemma of_char_digit: "d < 10 \<Longrightarrow> (of_char (char_of (48 + d :: nat)) :: nat) = 48 + d"
  by simp

lemma isdigit_digit: "d < 10 \<Longrightarrow> isdigit (char_of (48 + d :: nat))"
  by (simp add: isdigit_def)

lemma digits_snoc:
  "isdigit c \<Longrightarrow> digits acc s = (n, []) \<Longrightarrow> digits acc (s @ [c]) = (10 * n + (of_char c - 48), [])"
  by (induction s arbitrary: acc) (auto split: if_splits)

lemma digits_show_nat: "digits 0 (show_nat n) = (n, [])"
proof (induction n rule: show_nat.induct)
  case (1 n)
  show ?case
  proof (cases "n < 10")
    case True
    then show ?thesis by (simp add: show_nat.simps [of n] isdigit_def)
  next
    case False
    have d: "isdigit (char_of (48 + n mod 10))" by (simp add: isdigit_digit)
    have v: "(of_char (char_of (48 + n mod 10)) :: nat) = 48 + n mod 10"
      by (rule of_char_digit) simp
    from False 1 have "digits 0 (show_nat (n div 10)) = (n div 10, [])" by simp
    from digits_snoc [OF d this] v False show ?thesis
      by (simp add: show_nat.simps [of n])
  qed
qed

lemma show_nat_starts_with_digit: "\<exists>d r. show_nat n = d # r \<and> isdigit d"
proof (induction n rule: show_nat.induct)
  case (1 n)
  show ?case
  proof (cases "n < 10")
    case True
    then show ?thesis by (simp add: show_nat.simps [of n] isdigit_digit)
  next
    case False
    with 1 obtain d r where "show_nat (n div 10) = d # r" "isdigit d" by auto
    with False show ?thesis by (simp add: show_nat.simps [of n])
  qed
qed

lemma isdigit_not_sign: "isdigit d \<Longrightarrow> \<not> isspace d \<and> d \<noteq> CHR ''-'' \<and> d \<noteq> CHR ''+''"
  by (auto simp: isdigit_def isspace_def g_ascii_isspace_def)

lemma strtol_show_nat: "strtol (show_nat n) = (int n, [])"
proof -
  obtain d r where s: "show_nat n = d # r" and d: "isdigit d"
    using show_nat_starts_with_digit by blast
  have "digits 0 (d # r) = (n, [])" using digits_show_nat [of n] s by simp
  with d isdigit_not_sign [OF d] show ?thesis
    unfolding strtol_def s by (simp add: Let_def)
qed

lemma strtol_minus_show_nat: "strtol (CHR ''-'' # show_nat n) = (- int n, [])"
proof -
  obtain d r where s: "show_nat n = d # r" and d: "isdigit d"
    using show_nat_starts_with_digit by blast
  have "digits 0 (d # r) = (n, [])" using digits_show_nat [of n] s by simp
  with d show ?thesis
    unfolding strtol_def s by (simp add: Let_def isspace_def g_ascii_isspace_def)
qed

lemma strtol_show_int: "strtol (show_int i) = (i, [])"
  by (simp add: show_int_def strtol_show_nat strtol_minus_show_nat)

lemma show_int_inject: "show_int i = show_int j \<Longrightarrow> i = j"
  by (metis strtol_show_int prod.inject)

lemma show_nat_not_empty: "show_nat n \<noteq> []"
  using show_nat_starts_with_digit [of n] by auto

lemma show_int_not_empty: "show_int i \<noteq> []"
  by (simp add: show_int_def show_nat_not_empty)

lemma parse_show_int:
  "- (2 ^ 31) \<le> i \<Longrightarrow> i < 2 ^ 31 \<Longrightarrow> g_key_file_parse_value_as_integer (show_int i) = Inr i"
  by (simp add: g_key_file_parse_value_as_integer_def strtol_show_int show_int_not_empty)

lemma length_show_nat: "0 < k \<Longrightarrow> n < 10 ^ k \<Longrightarrow> length (show_nat n) \<le> k"
proof (induction n arbitrary: k rule: show_nat.induct)
  case (1 n)
  show ?case
  proof (cases "n < 10")
    case True
    with 1(2) show ?thesis by (simp add: show_nat.simps [of n])
  next
    case False
    with 1(3) have "1 < k" by (cases "k = 1") (use 1(2) in auto)
    then obtain k' where k: "k = Suc k'" and k': "0 < k'" by (cases k) auto
    from 1(3) k have "n div 10 < 10 ^ k'" by (simp add: less_mult_imp_div_less mult.commute)
    from 1(1) [OF False k' this] False k show ?thesis
      by (simp add: show_nat.simps [of n])
  qed
qed

lemma length_show_int_sint: "length (show_int (sint (p :: 32 word))) \<le> 11"
proof -
  have b: "- (2 ^ 31) \<le> sint p" "sint p < 2 ^ 31"
    using sint_ge [of p] sint_lt [of p] by simp_all
  have "nat \<bar>sint p\<bar> < 10 ^ 10" using b by simp
  then have "length (show_nat (nat \<bar>sint p\<bar>)) \<le> 10"
    by (intro length_show_nat) simp_all
  then show ?thesis by (auto simp: show_int_def abs_if split: if_splits)
qed

lemma location_key_eq: "location_key p = ''location_'' @ show_int (sint p)"
  using length_show_int_sint [of p] by (simp add: location_key_def)

lemma location_key_inject: "location_key p = location_key q \<Longrightarrow> p = q"
proof -
  assume "location_key p = location_key q"
  then have "show_int (sint p) = show_int (sint q)" by (simp add: location_key_eq)
  then have "sint p = sint q" by (rule show_int_inject)
  then show "p = q" by (rule signed_word_eqI)
qed

subsection \<open>Strings\<close>

lemma parse_value_as_string_plain:
  "c \<noteq> CHR 0x5C \<Longrightarrow>
   g_key_file_parse_value_as_string (c # r) = map_sum id ((#) c) (g_key_file_parse_value_as_string r)"
  by (cases r) simp_all

lemma parse_string_roundtrip:
  "g_key_file_parse_value_as_string (g_key_file_parse_string_as_value lead s) = Inr s"
  by (induction s arbitrary: lead) (simp_all add: parse_value_as_string_plain)

subsection \<open>Booleans\<close>

lemma parse_boolean_roundtrip:
  "g_key_file_parse_value_as_boolean (if b then ''true'' else ''false'') = Inr b"
  by (simp add: g_key_file_parse_value_as_boolean_def g_ascii_isspace_def)

subsection \<open>UTF-8 and escapes\<close>

lemma parse_string_as_value_high:
  "128 \<le> (of_char c :: nat) \<Longrightarrow>
   g_key_file_parse_string_as_value lead (c # cs) = c # g_key_file_parse_string_as_value False cs"
  by auto

lemma utf8_tail_high: "utf8_tail c \<Longrightarrow> 128 \<le> (of_char c :: nat)"
  by (simp add: utf8_tail_def)

lemma g_utf8_validate_ascii:
  "(of_char c :: nat) < 128 \<Longrightarrow> g_utf8_validate (c # cs) = g_utf8_validate cs"
  by simp

lemma g_utf8_validate_escape:
  "g_utf8_validate s \<Longrightarrow> g_utf8_validate (g_key_file_parse_string_as_value lead s)"
proof (induction s arbitrary: lead rule: length_induct)
  case (1 s)
  show ?case
  proof (cases s)
    case Nil
    then show ?thesis by simp
  next
    case (Cons c cs)
    show ?thesis
    proof (cases "(of_char c :: nat) < 128")
      case True
      with 1(2) Cons have "g_utf8_validate cs" by simp
      with 1(1) Cons have ih: "\<And>l. g_utf8_validate (g_key_file_parse_string_as_value l cs)"
        by simp
      from True show ?thesis
        unfolding Cons by (simp add: ih Let_def del: g_utf8_validate.simps(2) add: g_utf8_validate_ascii)
    next
      case False
      then have high: "128 \<le> (of_char c :: nat)" by simp
      consider (two) "194 \<le> (of_char c :: nat)" "(of_char c :: nat) \<le> 223"
        | (three) "224 \<le> (of_char c :: nat)" "(of_char c :: nat) \<le> 239"
        | (four) "240 \<le> (of_char c :: nat)" "(of_char c :: nat) \<le> 244"
        using 1(2) False unfolding Cons by (auto simp: Let_def split: if_splits)
      then show ?thesis
      proof cases
        case two
        with 1(2) False Cons obtain c1 r where cs: "cs = c1 # r" and t: "utf8_tail c1"
          and v: "g_utf8_validate r"
          by (auto simp: Let_def split: list.splits)
        from 1(1) Cons cs v have ih: "g_utf8_validate (g_key_file_parse_string_as_value False r)"
          by simp
        have "g_key_file_parse_string_as_value lead s =
            c # c1 # g_key_file_parse_string_as_value False r"
          by (simp only: Cons cs parse_string_as_value_high [OF high]
              parse_string_as_value_high [OF utf8_tail_high [OF t]])
        with two False t ih show ?thesis
          by (simp add: Let_def)
      next
        case three
        with 1(2) False Cons obtain c1 c2 r where cs: "cs = c1 # c2 # r"
          and b1: "(if (of_char c :: nat) = 224 then 160 else 128) \<le> (of_char c1 :: nat)"
            "(of_char c1 :: nat) \<le> (if (of_char c :: nat) = 237 then 159 else 191)"
          and t2: "utf8_tail c2" and v: "g_utf8_validate r"
          by (auto simp: Let_def split: list.splits)
        from b1(1) have h1: "128 \<le> (of_char c1 :: nat)" by (auto split: if_splits)
        from 1(1) Cons cs v have ih: "g_utf8_validate (g_key_file_parse_string_as_value False r)"
          by simp
        have "g_key_file_parse_string_as_value lead s =
            c # c1 # c2 # g_key_file_parse_string_as_value False r"
          by (simp only: Cons cs parse_string_as_value_high [OF high]
              parse_string_as_value_high [OF h1]
              parse_string_as_value_high [OF utf8_tail_high [OF t2]])
        with three False b1 t2 ih show ?thesis
          by (simp add: Let_def)
      next
        case four
        with 1(2) False Cons obtain c1 c2 c3 r where cs: "cs = c1 # c2 # c3 # r"
          and b1: "(if (of_char c :: nat) = 240 then 144 else 128) \<le> (of_char c1 :: nat)"
            "(of_char c1 :: nat) \<le> (if (of_char c :: nat) = 244 then 143 else 191)"
          and t2: "utf8_tail c2" and t3: "utf8_tail c3" and v: "g_utf8_validate r"
          by (auto simp: Let_def split: list.splits)
        from b1(1) have h1: "128 \<le> (of_char c1 :: nat)" by (auto split: if_splits)
        from 1(1) Cons cs v have ih: "g_utf8_validate (g_key_file_parse_string_as_value False r)"
          by simp
        have "g_key_file_parse_string_as_value lead s =
            c # c1 # c2 # c3 # g_key_file_parse_string_as_value False r"
          by (simp only: Cons cs parse_string_as_value_high [OF high]
              parse_string_as_value_high [OF h1]
              parse_string_as_value_high [OF utf8_tail_high [OF t2]]
              parse_string_as_value_high [OF utf8_tail_high [OF t3]])
        with four False b1 t2 t3 ih show ?thesis
          by (simp add: Let_def)
      qed
    qed
  qed
qed

subsection \<open>What the parser reads back\<close>

lemma skip_space_escaped:
  "\<not> leading_form_feed s \<Longrightarrow>
   dropWhile g_ascii_isspace (g_key_file_parse_string_as_value True s) =
     g_key_file_parse_string_as_value True s"
  by (cases s) (auto simp: leading_form_feed_def g_ascii_isspace_def)

lemma skip_space_boolean:
  "dropWhile g_ascii_isspace (if b then ''true'' else ''false'') = (if b then ''true'' else ''false'')"
  by (simp add: g_ascii_isspace_def)

lemma skip_space_show_int: "dropWhile g_ascii_isspace (show_int i) = show_int i"
proof -
  obtain d r where s: "show_nat (nat \<bar>i\<bar>) = d # r" and d: "isdigit d"
    using show_nat_starts_with_digit by blast
  from isdigit_not_sign [OF d] have "\<not> g_ascii_isspace d" by (simp add: isspace_def)
  with s show ?thesis
    by (auto simp: show_int_def g_ascii_isspace_def abs_if split: if_splits)
qed

lemma map_of_key_file_as_read:
  "map_of (key_file_as_read kf) g =
     map_option (map (\<lambda>(k, v). (k, dropWhile g_ascii_isspace v))) (map_of kf g)"
  by (induction kf) (auto simp: key_file_as_read_def)

lemma map_of_skip_space:
  "map_of (map (\<lambda>(k, v). (k, dropWhile g_ascii_isspace v)) kvs) k =
     map_option (dropWhile g_ascii_isspace) (map_of kvs k)"
  by (induction kvs) auto

lemma raw_value_key_file_as_read:
  "raw_value (key_file_as_read kf) g k = map_option (dropWhile g_ascii_isspace) (raw_value kf g k)"
  by (simp add: raw_value_def g_key_file_get_value_def map_of_key_file_as_read map_of_skip_space
      split: option.splits)

lemma group_entries_key_file_as_read:
  "group_entries (key_file_as_read kf) g =
     map (\<lambda>(k, v). (k, dropWhile g_ascii_isspace v)) (group_entries kf g)"
  by (simp add: group_entries_def map_of_key_file_as_read split: option.splits)

subsection \<open>The loaders in terms of raw values\<close>

lemma config_load_boolean_raw:
  "config_load_boolean kf g k d =
     (case raw_value kf g k of
        None \<Rightarrow> d
      | Some v \<Rightarrow> (case g_key_file_parse_value_as_boolean v of Inl e \<Rightarrow> d | Inr b \<Rightarrow> b))"
  by (simp add: config_load_boolean_def g_key_file_get_boolean_def raw_value_def split: sum.splits)

lemma config_load_integer_raw:
  "config_load_integer kf g k d =
     (case raw_value kf g k of
        None \<Rightarrow> d
      | Some v \<Rightarrow> (case g_key_file_parse_value_as_integer v of Inl e \<Rightarrow> d | Inr i \<Rightarrow> word_of_int i))"
  by (simp add: config_load_integer_def g_key_file_get_integer_def raw_value_def split: sum.splits)

lemma config_load_string_raw:
  "config_load_string kf g k d =
     (case raw_value kf g k of
        None \<Rightarrow> d
      | Some v \<Rightarrow>
          if \<not> g_utf8_validate v then d
          else (case g_key_file_parse_value_as_string v of Inl e \<Rightarrow> d | Inr s \<Rightarrow> Some s))"
  by (simp add: config_load_string_def g_key_file_get_string_def raw_value_def split: sum.splits)

lemma g_key_file_get_string_raw:
  "raw_value kf g k = Some v \<Longrightarrow>
   g_key_file_get_string kf g k =
     (if \<not> g_utf8_validate v then Inl G_KEY_FILE_ERROR_UNKNOWN_ENCODING
      else g_key_file_parse_value_as_string v)"
  by (simp add: g_key_file_get_string_def raw_value_def split: sum.splits)

lemma raw_value_set_string:
  "raw_value (g_key_file_set_string kf g k s) g' k' =
     (if g' = g \<and> k' = k then Some (g_key_file_parse_string_as_value True s) else raw_value kf g' k')"
  by (simp add: g_key_file_set_string_def raw_value_set_value)

subsection \<open>The saved locations\<close>

lemma word_of_nat_neq_0: "0 < n \<Longrightarrow> n < 2 ^ 32 \<Longrightarrow> (of_nat n :: 32 word) \<noteq> 0"
proof
  assume "0 < n" "n < 2 ^ 32" "(of_nat n :: 32 word) = 0"
  then have "(2::nat) ^ 32 dvd n" by (simp add: word_of_nat_eq_0_iff)
  with \<open>0 < n\<close> have "(2::nat) ^ 32 \<le> n" by (rule dvd_imp_le [rotated])
  with \<open>n < 2 ^ 32\<close> show False by simp
qed

lemma raw_value_save_locations_other:
  "g \<noteq> ''Database'' \<or> (\<forall>i<length ls. k \<noteq> location_key (pos + of_nat i)) \<Longrightarrow>
   raw_value (save_locations kf pos ls) g k = raw_value kf g k"
proof (induction ls arbitrary: kf pos)
  case Nil
  show ?case by simp
next
  case (Cons l ls)
  have "g \<noteq> ''Database'' \<or> (\<forall>i<length ls. k \<noteq> location_key (pos + 1 + of_nat i))"
  proof (cases "g = ''Database''")
    case True
    have "\<forall>i<length ls. k \<noteq> location_key (pos + 1 + of_nat i)"
    proof (intro allI impI)
      fix i assume "i < length ls"
      then have "Suc i < length (l # ls)" by simp
      with Cons.prems True have "k \<noteq> location_key (pos + of_nat (Suc i))" by blast
      then show "k \<noteq> location_key (pos + 1 + of_nat i)" by (simp add: add.assoc)
    qed
    then show ?thesis ..
  next
    case False
    then show ?thesis ..
  qed
  from Cons.IH [OF this] have
    "raw_value (save_locations (g_key_file_set_string kf ''Database'' (location_key pos) l) (pos + 1) ls) g k =
     raw_value (g_key_file_set_string kf ''Database'' (location_key pos) l) g k" .
  moreover have "g \<noteq> ''Database'' \<or> k \<noteq> location_key pos"
  proof (cases "g = ''Database''")
    case True
    have "0 < length (l # ls)" by simp
    with Cons.prems True have "k \<noteq> location_key (pos + of_nat 0)" by blast
    then show ?thesis by simp
  next
    case False
    then show ?thesis ..
  qed
  ultimately show ?case by (auto simp: raw_value_set_string)
qed

lemma raw_value_save_locations_nth:
  "i < length ls \<Longrightarrow> length ls \<le> 2 ^ 32 \<Longrightarrow>
   raw_value (save_locations kf pos ls) ''Database'' (location_key (pos + of_nat i)) =
     Some (g_key_file_parse_string_as_value True (ls ! i))"
proof (induction ls arbitrary: kf pos i)
  case Nil
  then show ?case by simp
next
  case (Cons l ls)
  show ?case
  proof (cases i)
    case 0
    have "\<forall>j<length ls. location_key pos \<noteq> location_key (pos + 1 + of_nat j)"
    proof (intro allI impI notI)
      fix j assume j: "j < length ls" and e: "location_key pos = location_key (pos + 1 + of_nat j)"
      from e have "pos = pos + 1 + of_nat j" by (rule location_key_inject)
      then have "(of_nat (Suc j) :: 32 word) = 0" by (simp add: add.assoc)
      moreover from j Cons.prems(2) have "Suc j < 2 ^ 32" by simp
      ultimately show False using word_of_nat_neq_0 [of "Suc j"] by simp
    qed
    then have "raw_value (save_locations (g_key_file_set_string kf ''Database'' (location_key pos) l) (pos + 1) ls)
        ''Database'' (location_key pos) =
      raw_value (g_key_file_set_string kf ''Database'' (location_key pos) l) ''Database'' (location_key pos)"
      by (intro raw_value_save_locations_other) simp
    with 0 show ?thesis by (simp add: raw_value_set_string)
  next
    case (Suc i')
    with Cons.prems have "i' < length ls" "length ls \<le> 2 ^ 32" by simp_all
    from Cons.IH [OF this] have
      "raw_value (save_locations (g_key_file_set_string kf ''Database'' (location_key pos) l) (pos + 1) ls)
         ''Database'' (location_key (pos + 1 + of_nat i')) =
       Some (g_key_file_parse_string_as_value True (ls ! i'))" .
    then show ?thesis using Suc by (simp add: add.assoc)
  qed
qed

subsection \<open>The loop that loads the locations\<close>

lemma load_locations_stop:
  "config_load_string kf ''Database'' (location_key pos) None = None \<Longrightarrow>
   load_locations kf pos acc = Some acc"
  by (subst load_locations.simps) simp

lemma load_locations_step:
  "config_load_string kf ''Database'' (location_key pos) None = Some v \<Longrightarrow>
   load_locations kf pos acc = load_locations kf (pos + 1) (acc @ [v])"
  by (subst load_locations.simps) simp

lemma load_locations_exact:
  "(\<forall>i<length ls. config_load_string kf ''Database'' (location_key (pos + of_nat i)) None = Some (ls ! i)) \<Longrightarrow>
   config_load_string kf ''Database'' (location_key (pos + of_nat (length ls))) None = None \<Longrightarrow>
   load_locations kf pos acc = Some (acc @ ls)"
proof (induction ls arbitrary: pos acc)
  case Nil
  then show ?case by (simp add: load_locations_stop)
next
  case (Cons l ls)
  have "0 < length (l # ls)" by simp
  with Cons.prems(1) have "config_load_string kf ''Database'' (location_key (pos + of_nat 0)) None = Some ((l # ls) ! 0)"
    by blast
  then have first: "config_load_string kf ''Database'' (location_key pos) None = Some l"
    by simp
  have rest: "\<forall>i<length ls. config_load_string kf ''Database'' (location_key (pos + 1 + of_nat i)) None = Some (ls ! i)"
  proof (intro allI impI)
    fix i assume "i < length ls"
    then have "Suc i < length (l # ls)" by simp
    with Cons.prems(1) have
      "config_load_string kf ''Database'' (location_key (pos + of_nat (Suc i))) None = Some ((l # ls) ! Suc i)"
      by blast
    then show "config_load_string kf ''Database'' (location_key (pos + 1 + of_nat i)) None = Some (ls ! i)"
      by (simp add: add.assoc)
  qed
  from Cons.prems(2) have stop:
    "config_load_string kf ''Database'' (location_key (pos + 1 + of_nat (length ls))) None = None"
    by (simp add: add.assoc)
  from Cons.IH [OF rest stop] first show ?case
    by (simp add: load_locations_step)
qed

lemma load_locations_terminates:
  assumes "config_load_string kf ''Database'' (location_key p) None = None"
  shows "\<exists>ls. load_locations kf pos acc = Some ls"
proof (induction "unat (p - pos)" arbitrary: pos acc rule: less_induct)
  case less
  show ?case
  proof (cases "config_load_string kf ''Database'' (location_key pos) None")
    case None
    then show ?thesis by (simp add: load_locations_stop)
  next
    case (Some v)
    with assms have "p \<noteq> pos" by auto
    then have nz: "p - pos \<noteq> 0" by simp
    have e: "p - (pos + 1) = p - pos - 1" by simp
    have "unat (p - pos - 1) = unat (p - pos) - 1" by (rule unat_minus_one [OF nz])
    then have "unat (p - (pos + 1)) = unat (p - pos) - 1" by (simp only: e)
    moreover from nz have "0 < unat (p - pos)" by (simp add: unat_gt_0)
    ultimately have "unat (p - (pos + 1)) < unat (p - pos)" by simp
    from less [OF this] Some show ?thesis by (simp add: load_locations_step)
  qed
qed

lemma some_location_missing:
  assumes "length (group_entries kf ''Database'') < 2 ^ 32"
  shows "\<exists>p. config_load_string kf ''Database'' (location_key p) None = None"
proof (rule ccontr)
  assume "\<not> ?thesis"
  then have all: "\<And>p. raw_value kf ''Database'' (location_key p) \<noteq> None"
    by (auto simp: config_load_string_raw split: option.splits)
  have "\<And>p. location_key p \<in> fst ` set (group_entries kf ''Database'')"
  proof -
    fix p
    from all [of p] obtain kvs v where "map_of kf ''Database'' = Some kvs" "map_of kvs (location_key p) = Some v"
      by (auto simp: raw_value_def g_key_file_get_value_def split: option.splits)
    then show "location_key p \<in> fst ` set (group_entries kf ''Database'')"
      by (auto simp: group_entries_def dest!: map_of_SomeD intro: rev_image_eqI)
  qed
  then have sub: "range location_key \<subseteq> fst ` set (group_entries kf ''Database'')" by auto
  have "inj location_key" by (rule injI) (rule location_key_inject)
  then have "card (range location_key) = CARD(32 word)" by (rule card_image)
  then have "card (range location_key) = 2 ^ 32" by (simp add: card_word)
  moreover have "card (range location_key) \<le> card (fst ` set (group_entries kf ''Database''))"
    using sub by (intro card_mono) simp_all
  moreover have "card (fst ` set (group_entries kf ''Database'')) \<le> length (group_entries kf ''Database'')"
    using card_image_le [of "set (group_entries kf ''Database'')" fst]
      card_length [of "group_entries kf ''Database''"] by simp
  ultimately show False using assms by simp
qed

subsection \<open>What a saved key file holds\<close>

lemma save_key_file_eq: "save_key_file c = save_locations (save_scalars c) 1 (locations c)"
  by (simp add: save_key_file_def Let_def)

lemma raw_value_save_scalars:
  "raw_value (save_scalars c) ''Interface'' ''enable_list_tooltips'' = Some (if enable_list_tooltips c then ''true'' else ''false'')"
  "raw_value (save_scalars c) ''Interface'' ''enable_dark_theme'' = Some (if enable_dark_theme c then ''true'' else ''false'')"
  "raw_value (save_scalars c) ''Interface'' ''show_menubar'' = Some (if show_menubar c then ''true'' else ''false'')"
  "raw_value (save_scalars c) ''Interface'' ''show_statusbar'' = Some (if show_statusbar c then ''true'' else ''false'')"
  "raw_value (save_scalars c) ''Interface'' ''show_filter'' = Some (if show_filter c then ''true'' else ''false'')"
  "raw_value (save_scalars c) ''Interface'' ''show_search_button'' = Some (if show_search_button c then ''true'' else ''false'')"
  "raw_value (save_scalars c) ''Search'' ''match_case'' = Some (if match_case c then ''true'' else ''false'')"
  "raw_value (save_scalars c) ''Search'' ''enable_regex'' = Some (if enable_regex c then ''true'' else ''false'')"
  "raw_value (save_scalars c) ''Search'' ''search_in_path'' = Some (if search_in_path c then ''true'' else ''false'')"
  "raw_value (save_scalars c) ''Search'' ''limit_results'' = Some (if limit_results c then ''true'' else ''false'')"
  "raw_value (save_scalars c) ''Search'' ''num_results'' = Some (show_int (sint (num_results c)))"
  "raw_value (save_scalars c) ''Database'' k = None"
  by (simp_all add: save_scalars_def Let_def g_key_file_set_boolean_def g_key_file_set_integer_def
      raw_value_set_value g_key_file_new_def raw_value_def g_key_file_get_value_def)

lemma raw_value_save_key_file:
  "g \<noteq> ''Database'' \<Longrightarrow> raw_value (save_key_file c) g k = raw_value (save_scalars c) g k"
  by (simp add: save_key_file_eq raw_value_save_locations_other)

lemma config_load_boolean_saved:
  "raw_value kf g k = Some (if b then ''true'' else ''false'') \<Longrightarrow> config_load_boolean kf g k d = b"
  by (simp add: config_load_boolean_raw parse_boolean_roundtrip)

lemma config_load_integer_saved:
  "raw_value kf g k = Some (show_int (sint w)) \<Longrightarrow> config_load_integer kf g k d = w"
proof -
  have "- (2 ^ 31) \<le> sint (w :: 32 word)" "sint w < 2 ^ 31"
    using sint_ge [of w] sint_lt [of w] by simp_all
  then have "g_key_file_parse_value_as_integer (show_int (sint w)) = Inr (sint w)"
    by (rule parse_show_int)
  moreover assume "raw_value kf g k = Some (show_int (sint w))"
  ultimately show ?thesis by (simp add: config_load_integer_raw)
qed

lemma load_scalars_save_key_file:
  "load_scalars (key_file_as_read (save_key_file c)) c0 = c\<lparr>locations := locations c0\<rparr>"
proof -
  let ?kf = "key_file_as_read (save_key_file c)"
  have "config_load_boolean ?kf ''Interface'' ''enable_list_tooltips'' True = enable_list_tooltips c"
    "config_load_boolean ?kf ''Interface'' ''enable_dark_theme'' False = enable_dark_theme c"
    "config_load_boolean ?kf ''Interface'' ''show_menubar'' True = show_menubar c"
    "config_load_boolean ?kf ''Interface'' ''show_statusbar'' True = show_statusbar c"
    "config_load_boolean ?kf ''Interface'' ''show_filter'' True = show_filter c"
    "config_load_boolean ?kf ''Interface'' ''show_search_button'' True = show_search_button c"
    "config_load_boolean ?kf ''Search'' ''match_case'' False = match_case c"
    "config_load_boolean ?kf ''Search'' ''enable_regex'' False = enable_regex c"
    "config_load_boolean ?kf ''Search'' ''search_in_path'' False = search_in_path c"
    "config_load_boolean ?kf ''Search'' ''limit_results'' False = limit_results c"
    by (rule config_load_boolean_saved,
        simp add: raw_value_key_file_as_read raw_value_save_key_file raw_value_save_scalars
          skip_space_boolean)+
  moreover have "config_load_integer ?kf ''Search'' ''num_results'' 10000 = num_results c"
    by (rule config_load_integer_saved)
      (simp add: raw_value_key_file_as_read raw_value_save_key_file raw_value_save_scalars
        skip_space_show_int)
  ultimately show ?thesis
    by (cases c, cases c0) (simp add: load_scalars_def)
qed

lemma word_of_nat_inject:
  "i < 2 ^ 32 \<Longrightarrow> j < 2 ^ 32 \<Longrightarrow> (of_nat i :: 32 word) = of_nat j \<Longrightarrow> i = j"
  by (simp add: word_of_nat_eq_iff take_bit_nat_eq_self)

lemma load_locations_save_key_file:
  assumes "length (locations c) < 2 ^ 32"
    and "\<forall>l\<in>set (locations c). g_utf8_validate l \<and> \<not> leading_form_feed l"
  shows "load_locations (key_file_as_read (save_key_file c)) 1 acc = Some (acc @ locations c)"
proof (rule load_locations_exact)
  let ?ls = "locations c"
  let ?kf = "key_file_as_read (save_key_file c)"
  show "\<forall>i<length ?ls. config_load_string ?kf ''Database'' (location_key (1 + of_nat i)) None = Some (?ls ! i)"
  proof (intro allI impI)
    fix i assume i: "i < length ?ls"
    then have "?ls ! i \<in> set ?ls" by simp
    with assms(2) have u: "g_utf8_validate (?ls ! i)" and f: "\<not> leading_form_feed (?ls ! i)"
      by blast+
    from assms(1) have "length ?ls \<le> 2 ^ 32" by simp
    with i have "raw_value (save_key_file c) ''Database'' (location_key (1 + of_nat i)) =
        Some (g_key_file_parse_string_as_value True (?ls ! i))"
      unfolding save_key_file_eq by (rule raw_value_save_locations_nth)
    then have "raw_value ?kf ''Database'' (location_key (1 + of_nat i)) =
        Some (g_key_file_parse_string_as_value True (?ls ! i))"
      by (simp add: raw_value_key_file_as_read skip_space_escaped [OF f])
    then show "config_load_string ?kf ''Database'' (location_key (1 + of_nat i)) None = Some (?ls ! i)"
      by (simp add: config_load_string_raw parse_string_roundtrip g_utf8_validate_escape [OF u])
  qed
  have "\<forall>i<length ?ls. location_key (1 + of_nat (length ?ls)) \<noteq> location_key (1 + of_nat i)"
  proof (intro allI impI notI)
    fix i assume i: "i < length ?ls"
      and e: "location_key (1 + of_nat (length ?ls)) = location_key (1 + of_nat i)"
    from e have "(1 + of_nat (length ?ls) :: 32 word) = 1 + of_nat i" by (rule location_key_inject)
    then have "(of_nat (length ?ls) :: 32 word) = of_nat i" by simp
    with assms(1) i have "length ?ls = i" by (intro word_of_nat_inject) simp_all
    with i show False by simp
  qed
  then have "raw_value (save_key_file c) ''Database'' (location_key (1 + of_nat (length ?ls))) =
      raw_value (save_scalars c) ''Database'' (location_key (1 + of_nat (length ?ls)))"
    unfolding save_key_file_eq by (intro raw_value_save_locations_other) simp
  then show "config_load_string ?kf ''Database'' (location_key (1 + of_nat (length ?ls))) None = None"
    by (simp add: config_load_string_raw raw_value_key_file_as_read raw_value_save_scalars)
qed

lemma build_config_path_files [simp]:
  "build_config_path (env\<lparr>files := f\<rparr>) len = build_config_path env len"
  by (simp add: build_config_path_def)

lemma show_int_nat: "show_int (int n) = show_nat n"
  by (simp add: show_int_def)

lemma location_key_of_nat:
  assumes "n < 2 ^ 31"
  shows "location_key (of_nat n) = ''location_'' @ show_nat n"
proof -
  have "sint (of_nat n :: 32 word) = signed_take_bit 31 (int n)"
    by (simp add: signed_of_nat)
  also have "\<dots> = int n"
    using assms by (intro signed_take_bit_int_eq_self) simp_all
  finally show ?thesis by (simp add: location_key_eq show_int_nat)
qed

lemma group_entries_save_locations:
  "length ls \<le> 2 ^ 32 \<Longrightarrow>
   (\<forall>i<length ls. location_key (pos + of_nat i) \<notin> fst ` set (group_entries kf ''Database'')) \<Longrightarrow>
   group_entries (save_locations kf pos ls) ''Database'' =
     group_entries kf ''Database'' @
     map (\<lambda>i. (location_key (pos + of_nat i), g_key_file_parse_string_as_value True (ls ! i))) [0..<length ls]"
proof (induction ls arbitrary: kf pos)
  case Nil
  show ?case by simp
next
  case (Cons l ls)
  let ?kf = "g_key_file_set_string kf ''Database'' (location_key pos) l"
  let ?e = "group_entries kf ''Database''"
  have "0 < length (l # ls)" by simp
  with Cons.prems(2) have "location_key (pos + of_nat 0) \<notin> fst ` set ?e" by blast
  then have fresh: "location_key pos \<notin> fst ` set ?e" by simp
  then have entries: "group_entries ?kf ''Database'' =
      ?e @ [(location_key pos, g_key_file_parse_string_as_value True l)]"
    by (simp add: g_key_file_set_string_def group_entries_set_value set_pair_fresh)
  have len: "length ls \<le> 2 ^ 32" using Cons.prems(1) by simp
  have "\<forall>i<length ls. location_key (pos + 1 + of_nat i) \<notin> fst ` set (group_entries ?kf ''Database'')"
  proof (intro allI impI)
    fix i assume i: "i < length ls"
    then have "Suc i < length (l # ls)" by simp
    with Cons.prems(2) have "location_key (pos + of_nat (Suc i)) \<notin> fst ` set ?e" by blast
    then have a: "location_key (pos + 1 + of_nat i) \<notin> fst ` set ?e" by (simp add: add.assoc)
    have "location_key (pos + 1 + of_nat i) \<noteq> location_key pos"
    proof
      assume "location_key (pos + 1 + of_nat i) = location_key pos"
      then have "pos + 1 + of_nat i = pos" by (rule location_key_inject)
      then have "(of_nat (Suc i) :: 32 word) = 0" by (simp add: add.assoc)
      moreover from i Cons.prems(1) have "Suc i < 2 ^ 32" by simp
      ultimately show False using word_of_nat_neq_0 [of "Suc i"] by simp
    qed
    with a show "location_key (pos + 1 + of_nat i) \<notin> fst ` set (group_entries ?kf ''Database'')"
      by (simp add: entries)
  qed
  from Cons.IH [OF len this] have
    "group_entries (save_locations ?kf (pos + 1) ls) ''Database'' =
       group_entries ?kf ''Database'' @
       map (\<lambda>i. (location_key (pos + 1 + of_nat i), g_key_file_parse_string_as_value True (ls ! i))) [0..<length ls]" .
  then show ?case
    by (simp add: entries map_upt_Suc add.assoc del: upt_Suc)
qed

lemma group_entries_save_scalars: "group_entries (save_scalars c) ''Database'' = []"
  by (simp add: save_scalars_def Let_def g_key_file_set_boolean_def g_key_file_set_integer_def
      group_entries_set_value g_key_file_new_def group_entries_def)

lemma group_entries_save_key_file:
  assumes "length (locations c) < 2 ^ 31"
  shows "group_entries (save_key_file c) ''Database'' =
     map (\<lambda>i. (''location_'' @ show_nat (Suc i), g_key_file_parse_string_as_value True (locations c ! i)))
       [0..<length (locations c)]"
proof -
  from assms have "length (locations c) \<le> 2 ^ 32" by simp
  then have "group_entries (save_key_file c) ''Database'' =
     map (\<lambda>i. (location_key (1 + of_nat i), g_key_file_parse_string_as_value True (locations c ! i)))
       [0..<length (locations c)]"
    unfolding save_key_file_eq
    by (subst group_entries_save_locations) (simp_all add: group_entries_save_scalars)
  also have "\<dots> = map (\<lambda>i. (''location_'' @ show_nat (Suc i), g_key_file_parse_string_as_value True (locations c ! i)))
       [0..<length (locations c)]"
  proof (rule map_cong [OF refl])
    fix i assume "i \<in> set [0..<length (locations c)]"
    with assms have "Suc i < 2 ^ 31" by simp
    from location_key_of_nat [OF this]
    show "(location_key (1 + of_nat i), g_key_file_parse_string_as_value True (locations c ! i)) =
      (''location_'' @ show_nat (Suc i), g_key_file_parse_string_as_value True (locations c ! i))"
      by simp
  qed
  finally show ?thesis .
qed

lemma locations_load_scalars [simp]: "locations (load_scalars kf c) = locations c"
  by (simp add: load_scalars_def)

lemma load_config_key_file:
  "files env (build_config_path env PATH_MAX) = KeyFileData kf \<Longrightarrow>
   load_config c env =
     (case load_locations kf 1 (locations c) of
        None \<Rightarrow> None
      | Some locs \<Rightarrow> Some (True, (load_scalars kf c)\<lparr>locations := locs\<rparr>))"
  by (simp add: load_config_def g_key_file_load_from_file_def Let_def)

lemma load_locations_returns:
  assumes "length (group_entries kf ''Database'') < 2 ^ 32"
  shows "\<exists>locs. load_locations kf pos acc = Some locs"
proof -
  from some_location_missing [OF assms] obtain p where
    "config_load_string kf ''Database'' (location_key p) None = None" ..
  then show ?thesis by (rule load_locations_terminates)
qed

lemma load_locations_no_database:
  "map_of kf ''Database'' = None \<Longrightarrow> load_locations kf pos acc = Some acc"
  by (rule load_locations_stop)
    (simp add: config_load_string_def g_key_file_get_string_def g_key_file_get_value_def)

lemma parse_500: "g_key_file_parse_value_as_integer ''500'' = Inr 500"
  by code_simp

lemma parse_notabool: "g_key_file_parse_value_as_boolean ''notabool'' = Inl G_KEY_FILE_ERROR_INVALID_VALUE"
  by code_simp

lemma load_scalars_only_num_results:
  "load_scalars [(''Search'', [(''num_results'', ''500'')])] c =
     \<lparr> enable_list_tooltips = True, enable_dark_theme = False, show_menubar = True,
       show_statusbar = True, show_filter = True, show_search_button = True,
       match_case = False, enable_regex = False, search_in_path = False,
       limit_results = False, num_results = 500, locations = locations c \<rparr>"
  by (cases c)
    (simp add: load_scalars_def config_load_boolean_def config_load_integer_def
      g_key_file_get_boolean_def g_key_file_get_integer_def g_key_file_get_value_def parse_500)

lemma match_case_notabool:
  "match_case (load_scalars [(''Search'', [(''match_case'', ''notabool'')])] c) = False"
  by (simp add: load_scalars_def config_load_boolean_def
      g_key_file_get_boolean_def g_key_file_get_value_def parse_notabool)

lemma parse_integer_range:
  "g_key_file_parse_value_as_integer s = Inr v \<Longrightarrow> - (2 ^ 31) \<le> v \<and> v < 2 ^ 31"
  by (auto simp: g_key_file_parse_value_as_integer_def split: prod.splits if_splits)

lemma gap_first: "config_load_string [(''Database'', [(''location_1'', ''/a''), (''location_3'', ''/c'')])]
    ''Database'' (location_key 1) None = Some ''/a''"
  by code_simp

lemma gap_second: "config_load_string [(''Database'', [(''location_1'', ''/a''), (''location_3'', ''/c'')])]
    ''Database'' (location_key (1 + 1)) None = None"
  by code_simp

lemma load_locations_gap:
  "load_locations [(''Database'', [(''location_1'', ''/a''), (''location_3'', ''/c'')])] 1 acc = Some (acc @ [''/a''])"
  by (simp only: load_locations_step [OF gap_first] load_locations_stop [OF gap_second])

lemma config_path_example_env [simp]:
  "build_config_path example_env PATH_MAX = ''/home/user/.config/fsearch/fsearch.conf''"
  by (simp add: build_config_path_def example_env_def PATH_MAX_def config_folder_name_def config_file_name_def)

lemma config_path_env_with_file [simp]:
  "build_config_path (env_with_file kf) PATH_MAX = ''/home/user/.config/fsearch/fsearch.conf''"
  by (simp add: env_with_file_def)

lemma files_env_with_file:
  "files (env_with_file kf) (build_config_path (env_with_file kf) PATH_MAX) = KeyFileData kf"
  by (simp add: env_with_file_def)

lemma writable_example_env [simp]: "writable example_env path"
  by (simp add: example_env_def)

lemma config_path_malformed_env [simp]:
  "build_config_path malformed_env PATH_MAX = ''/home/user/.config/fsearch/fsearch.conf''"
  by (simp add: malformed_env_def)

section \<open>Saving and loading back\<close>

text \<open>
  C1. When \<^verbatim>\<open>save_config\<close> succeeds on a record whose locations are UTF-8 strings that
  do not begin with a form feed, and \<^verbatim>\<open>load_config\<close> is then run on a record that has
  no locations yet, the load succeeds and leaves exactly the saved record: every scalar
  field, and the locations in the same order. The list of locations may be empty or hold
  a path twice; it has fewer than \<open>2 ^ 32\<close> entries, the range of the 32-bit counter
  that numbers the keys.
\<close>

theorem save_config_load_config_roundtrip:
  assumes "save_config r env = (True, r', env')"
    and "length (locations r) < 2 ^ 32"
    and "\<forall>l\<in>set (locations r). g_utf8_validate l \<and> \<not> leading_form_feed l"
    and "locations c0 = []"
  shows "load_config c0 env' = Some (True, r)"
proof -
  let ?kf = "key_file_as_read (save_key_file r)"
  from assms(1) have env': "env' = env\<lparr>files := (files env)(build_config_path env PATH_MAX := KeyFileData ?kf)\<rparr>"
    by (auto simp: save_config_def g_key_file_save_to_file_def split: if_splits)
  have "load_locations ?kf 1 (locations (load_scalars ?kf c0)) = Some (locations r)"
    using load_locations_save_key_file [OF assms(2) assms(3)] assms(4)
    by (simp add: load_scalars_save_key_file)
  then show ?thesis
    by (simp add: env' load_config_def g_key_file_load_from_file_def Let_def load_scalars_save_key_file)
qed

theorem save_config_load_config_roundtrip_witness:
  "fst (save_config example_config example_env) = True \<and>
   length (locations example_config) < 2 ^ 32 \<and>
   g_utf8_validate ''/home/user'' \<and> \<not> leading_form_feed ''/home/user'' \<and>
   g_utf8_validate [CHR ''/'', CHR ''c'', CHR ''a'', CHR ''f'', CHR 0xC3, CHR 0xA9] \<and>
   \<not> leading_form_feed [CHR ''/'', CHR ''c'', CHR ''a'', CHR ''f'', CHR 0xC3, CHR 0xA9] \<and>
   g_utf8_validate '' /mnt/my disk'' \<and> \<not> leading_form_feed '' /mnt/my disk'' \<and>
   locations zeroed_config = [] \<and>
   load_config zeroed_config (snd (snd (save_config example_config example_env))) =
     Some (True, example_config)"
proof -
  have s: "save_config example_config example_env =
      (True, example_config, snd (snd (save_config example_config example_env)))"
    by (simp add: save_config_def g_key_file_save_to_file_def)
  have l: "length (locations example_config) < 2 ^ 32"
    by (simp add: example_config_def)
  have u1: "g_utf8_validate ''/home/user''" by code_simp
  have f1: "\<not> leading_form_feed ''/home/user''" by code_simp
  have u2: "g_utf8_validate [CHR ''/'', CHR ''c'', CHR ''a'', CHR ''f'', CHR 0xC3, CHR 0xA9]" by code_simp
  have f2: "\<not> leading_form_feed [CHR ''/'', CHR ''c'', CHR ''a'', CHR ''f'', CHR 0xC3, CHR 0xA9]" by code_simp
  have u3: "g_utf8_validate '' /mnt/my disk''" by code_simp
  have f3: "\<not> leading_form_feed '' /mnt/my disk''" by code_simp
  have v: "\<forall>l\<in>set (locations example_config). g_utf8_validate l \<and> \<not> leading_form_feed l"
    unfolding example_config_def using u1 f1 u2 f2 u3 f3 by simp
  have z: "locations zeroed_config = []"
    by (simp add: zeroed_config_def)
  have r: "load_config zeroed_config (snd (snd (save_config example_config example_env))) =
      Some (True, example_config)"
    by (rule save_config_load_config_roundtrip [OF s l v z])
  have f: "fst (save_config example_config example_env) = True"
    by (simp add: save_config_def g_key_file_save_to_file_def)
  show ?thesis by (intro conjI f l u1 f1 u2 f2 u3 f3 z r)
qed

text \<open>
  Without the condition on the locations the round trip fails. A path that is not UTF-8
  is written but not read back: the string getter refuses it, the loop stops there, and
  the load succeeds with the locations before it only. A form feed at the start of a path
  is written as it is and skipped by the parser, so the path comes back without it.
\<close>

theorem save_config_load_config_roundtrip_counterexample:
  "fst (save_config latin1_config example_env) = True \<and>
   locations latin1_config \<noteq> [] \<and> distinct (locations latin1_config) \<and>
   load_config zeroed_config (snd (snd (save_config latin1_config example_env))) =
     Some (True, latin1_config\<lparr>locations := []\<rparr>) \<and>
   load_config zeroed_config (snd (snd (save_config latin1_config example_env))) \<noteq>
     Some (True, latin1_config) \<and>
   fst (save_config form_feed_config example_env) = True \<and>
   locations form_feed_config \<noteq> [] \<and> distinct (locations form_feed_config) \<and>
   load_config zeroed_config (snd (snd (save_config form_feed_config example_env))) =
     Some (True, form_feed_config\<lparr>locations := [''/x'']\<rparr>) \<and>
   load_config zeroed_config (snd (snd (save_config form_feed_config example_env))) \<noteq>
     Some (True, form_feed_config)"
  by code_simp

section \<open>Defaults\<close>

text \<open>
  C2. \<^verbatim>\<open>load_default_config\<close> sets \<open>limit_results\<close> to true, while \<^verbatim>\<open>load_config\<close> on a
  key file that has no \<^verbatim>\<open>limit_results\<close> key in its \<^verbatim>\<open>Search\<close> group (or no such group)
  succeeds and sets it to false. The key file has fewer than \<open>2 ^ 32\<close> keys in its
  \<^verbatim>\<open>Database\<close> group, so that the loop over the locations ends.
\<close>

theorem limit_results_defaults_differ:
  assumes "files env (build_config_path env PATH_MAX) = KeyFileData kf"
    and "length (group_entries kf ''Database'') < 2 ^ 32"
    and "raw_value kf ''Search'' ''limit_results'' = None"
  shows "limit_results (snd (load_default_config c)) = True \<and>
     (\<exists>c'. load_config c env = Some (True, c') \<and> limit_results c' = False)"
proof -
  from load_locations_returns [OF assms(2)] obtain locs where
    locs: "load_locations kf 1 (locations c) = Some locs" by blast
  have "load_config c env = Some (True, (load_scalars kf c)\<lparr>locations := locs\<rparr>)"
    by (simp add: load_config_key_file [OF assms(1)] locs)
  moreover have "limit_results ((load_scalars kf c)\<lparr>locations := locs\<rparr>) = False"
    using assms(3) by (simp add: load_scalars_def config_load_boolean_raw)
  moreover have "limit_results (snd (load_default_config c)) = True"
    by (simp add: load_default_config_def)
  ultimately show ?thesis by blast
qed

theorem limit_results_defaults_differ_witness:
  "files (env_with_file [(''Search'', [(''num_results'', ''500'')])])
      (build_config_path (env_with_file [(''Search'', [(''num_results'', ''500'')])]) PATH_MAX) =
     KeyFileData [(''Search'', [(''num_results'', ''500'')])] \<and>
   length (group_entries [(''Search'', [(''num_results'', ''500'')])] ''Database'') < 2 ^ 32 \<and>
   raw_value [(''Search'', [(''num_results'', ''500'')])] ''Search'' ''limit_results'' = None \<and>
   limit_results (snd (load_default_config zeroed_config)) = True \<and>
   (\<exists>c'. load_config zeroed_config (env_with_file [(''Search'', [(''num_results'', ''500'')])]) =
      Some (True, c') \<and> limit_results c' = False)"
proof -
  let ?kf = "[(''Search'', [(''num_results'', ''500'')])]"
  have a: "files (env_with_file ?kf) (build_config_path (env_with_file ?kf) PATH_MAX) = KeyFileData ?kf"
    by (rule files_env_with_file)
  have b: "length (group_entries ?kf ''Database'') < 2 ^ 32"
    by (simp add: group_entries_def)
  have c: "raw_value ?kf ''Search'' ''limit_results'' = None"
    by (simp add: raw_value_def g_key_file_get_value_def)
  note r = limit_results_defaults_differ [OF a b c, of zeroed_config]
  show ?thesis by (intro conjI a b c r [THEN conjunct1] r [THEN conjunct2])
qed

text \<open>
  C3. \<^verbatim>\<open>load_default_config\<close> always succeeds, whatever record it is given, and leaves
  every field at its documented default: tooltips, menubar, statusbar, filter and search
  button on, dark theme, case matching, regular expressions and path search off, the
  result limit on with 10000 results, and no locations.
\<close>

theorem load_default_config_defaults:
  "load_default_config config =
     (True,
      \<lparr> enable_list_tooltips = True, enable_dark_theme = False, show_menubar = True,
        show_statusbar = True, show_filter = True, show_search_button = True,
        match_case = False, enable_regex = False, search_in_path = False,
        limit_results = True, num_results = 10000, locations = [] \<rparr>)"
  by (cases config) (simp add: load_default_config_def)

section \<open>Loading\<close>

text \<open>
  C4. \<^verbatim>\<open>load_config\<close> reads the keys \<^verbatim>\<open>location_1\<close>, \<^verbatim>\<open>location_2\<close>, ... of the
  \<^verbatim>\<open>Database\<close> group in this order and stops at the first one that gives no string:
  when the keys numbered 1 to n give the strings \<open>ls\<close> and the key numbered n + 1 gives
  none, the load succeeds and appends exactly \<open>ls\<close> to the locations of the record,
  whatever the file holds under higher numbers. For a file with \<^verbatim>\<open>location_1 = /a\<close> and
  \<^verbatim>\<open>location_3 = /c\<close> the locations read are \<^verbatim>\<open>/a\<close> alone.
\<close>

theorem load_config_locations_stop_at_gap:
  assumes "files env (build_config_path env PATH_MAX) = KeyFileData kf"
    and "Suc (length ls) < 2 ^ 31"
    and "\<forall>i<length ls. g_key_file_get_string kf ''Database'' (''location_'' @ show_nat (Suc i)) = Inr (ls ! i)"
    and "g_key_file_get_string kf ''Database'' (''location_'' @ show_nat (Suc (length ls))) = Inl e"
  shows "load_config c env = Some (True, (load_scalars kf c)\<lparr>locations := locations c @ ls\<rparr>) \<and>
     (kf = [(''Database'', [(''location_1'', ''/a''), (''location_3'', ''/c'')])] \<longrightarrow>
        load_config c env = Some (True, (load_scalars kf c)\<lparr>locations := locations c @ [''/a'']\<rparr>))"
proof -
  have present: "\<forall>i<length ls. config_load_string kf ''Database'' (location_key (1 + of_nat i)) None = Some (ls ! i)"
  proof (intro allI impI)
    fix i assume i: "i < length ls"
    with assms(2) have "Suc i < 2 ^ 31" by simp
    from location_key_of_nat [OF this] have "location_key (1 + of_nat i) = ''location_'' @ show_nat (Suc i)"
      by simp
    with assms(3) i show "config_load_string kf ''Database'' (location_key (1 + of_nat i)) None = Some (ls ! i)"
      by (simp add: config_load_string_def)
  qed
  from location_key_of_nat [OF assms(2)]
  have "location_key (1 + of_nat (length ls)) = ''location_'' @ show_nat (Suc (length ls))"
    by simp
  with assms(4) have absent: "config_load_string kf ''Database'' (location_key (1 + of_nat (length ls))) None = None"
    by (simp add: config_load_string_def)
  from load_locations_exact [OF present absent]
  have "load_locations kf 1 (locations c) = Some (locations c @ ls)" .
  then have "load_config c env = Some (True, (load_scalars kf c)\<lparr>locations := locations c @ ls\<rparr>)"
    by (simp add: load_config_key_file [OF assms(1)])
  moreover have "kf = [(''Database'', [(''location_1'', ''/a''), (''location_3'', ''/c'')])] \<longrightarrow>
        load_config c env = Some (True, (load_scalars kf c)\<lparr>locations := locations c @ [''/a'']\<rparr>)"
    by (simp add: load_config_key_file [OF assms(1)] load_locations_gap)
  ultimately show ?thesis ..
qed

theorem load_config_locations_stop_at_gap_witness:
  "files (env_with_file [(''Database'', [(''location_1'', ''/a''), (''location_3'', ''/c'')])])
      (build_config_path (env_with_file [(''Database'', [(''location_1'', ''/a''), (''location_3'', ''/c'')])]) PATH_MAX) =
     KeyFileData [(''Database'', [(''location_1'', ''/a''), (''location_3'', ''/c'')])] \<and>
   Suc (length [''/a'']) < 2 ^ 31 \<and>
   g_key_file_get_string [(''Database'', [(''location_1'', ''/a''), (''location_3'', ''/c'')])]
     ''Database'' (''location_'' @ show_nat (Suc 0)) = Inr ''/a'' \<and>
   g_key_file_get_string [(''Database'', [(''location_1'', ''/a''), (''location_3'', ''/c'')])]
     ''Database'' (''location_'' @ show_nat (Suc (length [''/a'']))) = Inl G_KEY_FILE_ERROR_KEY_NOT_FOUND \<and>
   load_config zeroed_config (env_with_file [(''Database'', [(''location_1'', ''/a''), (''location_3'', ''/c'')])]) =
     Some (True, (load_scalars [(''Database'', [(''location_1'', ''/a''), (''location_3'', ''/c'')])] zeroed_config)
        \<lparr>locations := [''/a'']\<rparr>)"
proof -
  let ?kf = "[(''Database'', [(''location_1'', ''/a''), (''location_3'', ''/c'')])]"
  have a: "files (env_with_file ?kf) (build_config_path (env_with_file ?kf) PATH_MAX) = KeyFileData ?kf"
    by (rule files_env_with_file)
  have b: "Suc (length [''/a'']) < 2 ^ 31" by simp
  have k1: "g_key_file_get_string ?kf ''Database'' (''location_'' @ show_nat (Suc 0)) = Inr ''/a''"
    by code_simp
  have c: "\<forall>i<length [''/a'']. g_key_file_get_string ?kf ''Database'' (''location_'' @ show_nat (Suc i)) = Inr ([''/a''] ! i)"
    using k1 by simp
  have d: "g_key_file_get_string ?kf ''Database'' (''location_'' @ show_nat (Suc (length [''/a'']))) =
      Inl G_KEY_FILE_ERROR_KEY_NOT_FOUND"
    by code_simp
  have "load_config zeroed_config (env_with_file ?kf) =
      Some (True, (load_scalars ?kf zeroed_config)\<lparr>locations := locations zeroed_config @ [''/a'']\<rparr>)"
    by (rule load_config_locations_stop_at_gap [OF a b c d, of zeroed_config, THEN conjunct1])
  then have e: "load_config zeroed_config (env_with_file ?kf) =
      Some (True, (load_scalars ?kf zeroed_config)\<lparr>locations := [''/a'']\<rparr>)"
    by (simp add: zeroed_config_def)
  show ?thesis by (intro conjI a b k1 d e)
qed

text \<open>
  C5. On a key file, \<^verbatim>\<open>load_config\<close> succeeds, and each scalar field whose getter
  reports an error (the group is missing, the key is missing, or the value is not of the
  field's type) gets its own default, whatever the other keys hold. A file with only
  \<^verbatim>\<open>num_results = 500\<close> in \<^verbatim>\<open>Search\<close> gives 500 results and every other scalar at its
  default for loading, the locations staying as the record had them; a file with
  \<^verbatim>\<open>match_case = notabool\<close> gives \<open>match_case\<close> false and still loads. The key file has
  fewer than \<open>2 ^ 32\<close> keys in its \<^verbatim>\<open>Database\<close> group.
\<close>

theorem load_config_scalar_fallback:
  assumes "files env (build_config_path env PATH_MAX) = KeyFileData kf"
    and "length (group_entries kf ''Database'') < 2 ^ 32"
  shows "\<exists>c'. load_config c env = Some (True, c') \<and>
     (\<forall>e. g_key_file_get_boolean kf ''Interface'' ''enable_list_tooltips'' = Inl e \<longrightarrow> enable_list_tooltips c' = True) \<and>
     (\<forall>e. g_key_file_get_boolean kf ''Interface'' ''enable_dark_theme'' = Inl e \<longrightarrow> enable_dark_theme c' = False) \<and>
     (\<forall>e. g_key_file_get_boolean kf ''Interface'' ''show_menubar'' = Inl e \<longrightarrow> show_menubar c' = True) \<and>
     (\<forall>e. g_key_file_get_boolean kf ''Interface'' ''show_statusbar'' = Inl e \<longrightarrow> show_statusbar c' = True) \<and>
     (\<forall>e. g_key_file_get_boolean kf ''Interface'' ''show_filter'' = Inl e \<longrightarrow> show_filter c' = True) \<and>
     (\<forall>e. g_key_file_get_boolean kf ''Interface'' ''show_search_button'' = Inl e \<longrightarrow> show_search_button c' = True) \<and>
     (\<forall>e. g_key_file_get_boolean kf ''Search'' ''match_case'' = Inl e \<longrightarrow> match_case c' = False) \<and>
     (\<forall>e. g_key_file_get_boolean kf ''Search'' ''enable_regex'' = Inl e \<longrightarrow> enable_regex c' = False) \<and>
     (\<forall>e. g_key_file_get_boolean kf ''Search'' ''search_in_path'' = Inl e \<longrightarrow> search_in_path c' = False) \<and>
     (\<forall>e. g_key_file_get_boolean kf ''Search'' ''limit_results'' = Inl e \<longrightarrow> limit_results c' = False) \<and>
     (\<forall>e. g_key_file_get_integer kf ''Search'' ''num_results'' = Inl e \<longrightarrow> num_results c' = 10000) \<and>
     (kf = [(''Search'', [(''num_results'', ''500'')])] \<longrightarrow>
        c' = \<lparr> enable_list_tooltips = True, enable_dark_theme = False, show_menubar = True,
               show_statusbar = True, show_filter = True, show_search_button = True,
               match_case = False, enable_regex = False, search_in_path = False,
               limit_results = False, num_results = 500, locations = locations c \<rparr>) \<and>
     (kf = [(''Search'', [(''match_case'', ''notabool'')])] \<longrightarrow> match_case c' = False)"
proof -
  from load_locations_returns [OF assms(2)] obtain locs where
    locs: "load_locations kf 1 (locations c) = Some locs" by blast
  let ?c = "(load_scalars kf c)\<lparr>locations := locs\<rparr>"
  have ret: "load_config c env = Some (True, ?c)"
    by (simp add: load_config_key_file [OF assms(1)] locs)
  have ex1: "kf = [(''Search'', [(''num_results'', ''500'')])] \<longrightarrow>
        ?c = \<lparr> enable_list_tooltips = True, enable_dark_theme = False, show_menubar = True,
               show_statusbar = True, show_filter = True, show_search_button = True,
               match_case = False, enable_regex = False, search_in_path = False,
               limit_results = False, num_results = 500, locations = locations c \<rparr>"
  proof
    assume kf: "kf = [(''Search'', [(''num_results'', ''500'')])]"
    then have "load_locations kf 1 (locations c) = Some (locations c)"
      by (intro load_locations_no_database) simp
    with locs have "locs = locations c" by simp
    then show "?c = \<lparr> enable_list_tooltips = True, enable_dark_theme = False, show_menubar = True,
               show_statusbar = True, show_filter = True, show_search_button = True,
               match_case = False, enable_regex = False, search_in_path = False,
               limit_results = False, num_results = 500, locations = locations c \<rparr>"
      by (simp add: kf load_scalars_only_num_results)
  qed
  have ex2: "kf = [(''Search'', [(''match_case'', ''notabool'')])] \<longrightarrow> match_case ?c = False"
    by (simp add: match_case_notabool)
  have fields:
    "\<forall>e. g_key_file_get_boolean kf ''Interface'' ''enable_list_tooltips'' = Inl e \<longrightarrow> enable_list_tooltips ?c = True"
    "\<forall>e. g_key_file_get_boolean kf ''Interface'' ''enable_dark_theme'' = Inl e \<longrightarrow> enable_dark_theme ?c = False"
    "\<forall>e. g_key_file_get_boolean kf ''Interface'' ''show_menubar'' = Inl e \<longrightarrow> show_menubar ?c = True"
    "\<forall>e. g_key_file_get_boolean kf ''Interface'' ''show_statusbar'' = Inl e \<longrightarrow> show_statusbar ?c = True"
    "\<forall>e. g_key_file_get_boolean kf ''Interface'' ''show_filter'' = Inl e \<longrightarrow> show_filter ?c = True"
    "\<forall>e. g_key_file_get_boolean kf ''Interface'' ''show_search_button'' = Inl e \<longrightarrow> show_search_button ?c = True"
    "\<forall>e. g_key_file_get_boolean kf ''Search'' ''match_case'' = Inl e \<longrightarrow> match_case ?c = False"
    "\<forall>e. g_key_file_get_boolean kf ''Search'' ''enable_regex'' = Inl e \<longrightarrow> enable_regex ?c = False"
    "\<forall>e. g_key_file_get_boolean kf ''Search'' ''search_in_path'' = Inl e \<longrightarrow> search_in_path ?c = False"
    "\<forall>e. g_key_file_get_boolean kf ''Search'' ''limit_results'' = Inl e \<longrightarrow> limit_results ?c = False"
    "\<forall>e. g_key_file_get_integer kf ''Search'' ''num_results'' = Inl e \<longrightarrow> num_results ?c = 10000"
    by (simp_all add: load_scalars_def config_load_boolean_def config_load_integer_def)
  show ?thesis
    by (rule exI [of _ ?c]) (intro conjI ret fields ex1 ex2)
qed

theorem load_config_scalar_fallback_witness:
  "files (env_with_file [(''Search'', [(''num_results'', ''500'')])])
      (build_config_path (env_with_file [(''Search'', [(''num_results'', ''500'')])]) PATH_MAX) =
     KeyFileData [(''Search'', [(''num_results'', ''500'')])] \<and>
   length (group_entries [(''Search'', [(''num_results'', ''500'')])] ''Database'') < 2 ^ 32 \<and>
   load_config zeroed_config (env_with_file [(''Search'', [(''num_results'', ''500'')])]) =
     Some (True,
       \<lparr> enable_list_tooltips = True, enable_dark_theme = False, show_menubar = True,
         show_statusbar = True, show_filter = True, show_search_button = True,
         match_case = False, enable_regex = False, search_in_path = False,
         limit_results = False, num_results = 500, locations = [] \<rparr>) \<and>
   files (env_with_file [(''Search'', [(''match_case'', ''notabool'')])])
      (build_config_path (env_with_file [(''Search'', [(''match_case'', ''notabool'')])]) PATH_MAX) =
     KeyFileData [(''Search'', [(''match_case'', ''notabool'')])] \<and>
   length (group_entries [(''Search'', [(''match_case'', ''notabool'')])] ''Database'') < 2 ^ 32 \<and>
   (\<exists>c'. load_config zeroed_config (env_with_file [(''Search'', [(''match_case'', ''notabool'')])]) =
      Some (True, c') \<and> match_case c' = False)"
proof -
  let ?k1 = "[(''Search'', [(''num_results'', ''500'')])]"
  let ?k2 = "[(''Search'', [(''match_case'', ''notabool'')])]"
  have a1: "files (env_with_file ?k1) (build_config_path (env_with_file ?k1) PATH_MAX) = KeyFileData ?k1"
    by (rule files_env_with_file)
  have b1: "length (group_entries ?k1 ''Database'') < 2 ^ 32"
    by (simp add: group_entries_def)
  have a2: "files (env_with_file ?k2) (build_config_path (env_with_file ?k2) PATH_MAX) = KeyFileData ?k2"
    by (rule files_env_with_file)
  have b2: "length (group_entries ?k2 ''Database'') < 2 ^ 32"
    by (simp add: group_entries_def)
  from load_config_scalar_fallback [OF a1 b1, of zeroed_config] obtain c1 where
    "load_config zeroed_config (env_with_file ?k1) = Some (True, c1)"
    "?k1 = ?k1 \<longrightarrow>
     c1 = \<lparr> enable_list_tooltips = True, enable_dark_theme = False, show_menubar = True,
         show_statusbar = True, show_filter = True, show_search_button = True,
         match_case = False, enable_regex = False, search_in_path = False,
         limit_results = False, num_results = 500, locations = locations zeroed_config \<rparr>"
    by (elim exE conjE)
  then have r1: "load_config zeroed_config (env_with_file ?k1) =
     Some (True,
       \<lparr> enable_list_tooltips = True, enable_dark_theme = False, show_menubar = True,
         show_statusbar = True, show_filter = True, show_search_button = True,
         match_case = False, enable_regex = False, search_in_path = False,
         limit_results = False, num_results = 500, locations = [] \<rparr>)"
    by (simp add: zeroed_config_def)
  from load_config_scalar_fallback [OF a2 b2, of zeroed_config] obtain c2 where
    "load_config zeroed_config (env_with_file ?k2) = Some (True, c2)"
    "?k2 = ?k2 \<longrightarrow> match_case c2 = False"
    by (elim exE conjE)
  then have "load_config zeroed_config (env_with_file ?k2) = Some (True, c2) \<and> match_case c2 = False"
    by simp
  then have r2: "\<exists>c'. load_config zeroed_config (env_with_file ?k2) = Some (True, c') \<and> match_case c' = False"
    by (rule exI [of _ c2])
  show ?thesis by (intro conjI a1 b1 r1 a2 b2 r2)
qed

text \<open>
  C6. When the configuration file is absent or unreadable, or is not a key file,
  \<^verbatim>\<open>load_config\<close> returns false.
\<close>

theorem load_config_fails_without_key_file:
  assumes "files env (build_config_path env PATH_MAX) = NoFile \<or>
           files env (build_config_path env PATH_MAX) = Malformed"
  shows "\<exists>c'. load_config c env = Some (False, c')"
  using assms by (auto simp: load_config_def g_key_file_load_from_file_def)

theorem load_config_fails_without_key_file_witness:
  "files example_env (build_config_path example_env PATH_MAX) = NoFile \<and>
   (\<exists>c'. load_config zeroed_config example_env = Some (False, c'))"
proof -
  have a: "files example_env (build_config_path example_env PATH_MAX) = NoFile"
    by (simp add: example_env_def)
  then have "files example_env (build_config_path example_env PATH_MAX) = NoFile \<or>
      files example_env (build_config_path example_env PATH_MAX) = Malformed" ..
  then have "\<exists>c'. load_config zeroed_config example_env = Some (False, c')"
    by (rule load_config_fails_without_key_file)
  with a show ?thesis ..
qed

text \<open>
  C9. When loading the key file fails, \<^verbatim>\<open>load_config\<close> returns false and the record is
  exactly the one the caller passed in: no field has been written.
\<close>

theorem load_config_failure_keeps_record:
  assumes "g_key_file_load_from_file (build_config_path env PATH_MAX) env = Inl e"
  shows "load_config c env = Some (False, c)"
  using assms by (simp add: load_config_def)

theorem load_config_failure_keeps_record_witness:
  "g_key_file_load_from_file (build_config_path malformed_env PATH_MAX) malformed_env =
     Inl G_KEY_FILE_ERROR_PARSE \<and>
   load_config example_config malformed_env = Some (False, example_config)"
proof -
  have a: "g_key_file_load_from_file (build_config_path malformed_env PATH_MAX) malformed_env =
      Inl G_KEY_FILE_ERROR_PARSE"
    by (simp add: g_key_file_load_from_file_def) (simp add: malformed_env_def)
  show ?thesis by (intro conjI a load_config_failure_keeps_record [OF a])
qed

text \<open>
  C10. The number of results is read as a signed 32-bit integer and stored in an unsigned
  one: when the getter gives a negative \<open>v\<close>, \<^verbatim>\<open>load_config\<close> succeeds and \<open>num_results\<close>
  is \<open>v\<close> modulo \<open>2 ^ 32\<close>, that is \<open>v + 2 ^ 32\<close>, not the default; \<open>- 1\<close> gives
  4294967295. The key file has fewer than \<open>2 ^ 32\<close> keys in its \<^verbatim>\<open>Database\<close> group.
\<close>

theorem load_config_negative_num_results:
  assumes "files env (build_config_path env PATH_MAX) = KeyFileData kf"
    and "length (group_entries kf ''Database'') < 2 ^ 32"
    and "g_key_file_get_integer kf ''Search'' ''num_results'' = Inr v"
    and "v < 0"
  shows "\<exists>c'. load_config c env = Some (True, c') \<and>
           uint (num_results c') = v mod 2 ^ 32 \<and>
           uint (num_results c') = v + 2 ^ 32 \<and>
           (v = - 1 \<longrightarrow> num_results c' = 4294967295)"
proof -
  from load_locations_returns [OF assms(2)] obtain locs where
    locs: "load_locations kf 1 (locations c) = Some locs" by blast
  let ?c = "(load_scalars kf c)\<lparr>locations := locs\<rparr>"
  have ret: "load_config c env = Some (True, ?c)"
    by (simp add: load_config_key_file [OF assms(1)] locs)
  have n: "num_results ?c = word_of_int v"
    using assms(3) by (simp add: load_scalars_def config_load_integer_def)
  from assms(3) have "- (2 ^ 31) \<le> v"
    by (auto simp: g_key_file_get_integer_def split: sum.splits dest: parse_integer_range)
  with assms(4) have "(v + 2 ^ 32) mod 2 ^ 32 = v + 2 ^ 32"
    by (intro mod_pos_pos_trivial) simp_all
  then have m: "v mod 2 ^ 32 = v + 2 ^ 32" by simp
  have u: "uint (num_results ?c) = v mod 2 ^ 32"
    by (simp add: n uint_word_of_int)
  have "v = - 1 \<longrightarrow> num_results ?c = 4294967295"
    by (simp add: n)
  with ret u m show ?thesis by (intro exI [of _ ?c]) simp
qed

theorem load_config_negative_num_results_witness:
  "files (env_with_file [(''Search'', [(''num_results'', ''-1'')])])
      (build_config_path (env_with_file [(''Search'', [(''num_results'', ''-1'')])]) PATH_MAX) =
     KeyFileData [(''Search'', [(''num_results'', ''-1'')])] \<and>
   length (group_entries [(''Search'', [(''num_results'', ''-1'')])] ''Database'') < 2 ^ 32 \<and>
   g_key_file_get_integer [(''Search'', [(''num_results'', ''-1'')])] ''Search'' ''num_results'' = Inr (- 1) \<and>
   (- 1 :: int) < 0 \<and>
   (\<exists>c'. load_config zeroed_config (env_with_file [(''Search'', [(''num_results'', ''-1'')])]) =
      Some (True, c') \<and> num_results c' = 4294967295)"
proof -
  let ?kf = "[(''Search'', [(''num_results'', ''-1'')])]"
  have a: "files (env_with_file ?kf) (build_config_path (env_with_file ?kf) PATH_MAX) = KeyFileData ?kf"
    by (rule files_env_with_file)
  have b: "length (group_entries ?kf ''Database'') < 2 ^ 32"
    by (simp add: group_entries_def)
  have c: "g_key_file_get_integer ?kf ''Search'' ''num_results'' = Inr (- 1)"
    by code_simp
  have d: "(- 1 :: int) < 0" by simp
  from load_config_negative_num_results [OF a b c d, of zeroed_config] obtain c' where
    "load_config zeroed_config (env_with_file ?kf) = Some (True, c')"
    "(- 1 :: int) = - 1 \<longrightarrow> num_results c' = 4294967295"
    by (elim exE conjE)
  then have "load_config zeroed_config (env_with_file ?kf) = Some (True, c') \<and> num_results c' = 4294967295"
    by simp
  then have r: "\<exists>c'. load_config zeroed_config (env_with_file ?kf) = Some (True, c') \<and>
      num_results c' = 4294967295"
    by (rule exI [of _ c'])
  show ?thesis by (intro conjI a b c d r)
qed

section \<open>Saving\<close>

text \<open>
  C7. When \<^verbatim>\<open>save_config\<close> succeeds on a record with N locations, the \<^verbatim>\<open>Database\<close>
  group of the file written has exactly the keys \<^verbatim>\<open>location_1\<close> to \<^verbatim>\<open>location_N\<close>, in
  this order, and their values are the record's locations in list order, in escaped form
  and as the parser reads them, without leading white space. Reading the key numbered
  i + 1 as a string gives back the location at position i when that location is UTF-8
  and does not begin with a form feed. N is below \<open>2 ^ 31\<close>, the range in which the
  32-bit counter prints as a positive number.
\<close>

theorem save_config_numbers_locations:
  assumes "save_config c env = (True, c', env')"
    and "length (locations c) < 2 ^ 31"
  shows "\<exists>kf. files env' (build_config_path env' PATH_MAX) = KeyFileData kf \<and>
           map fst (group_entries kf ''Database'') =
             map (\<lambda>i. ''location_'' @ show_nat i) [1..<Suc (length (locations c))] \<and>
           map snd (group_entries kf ''Database'') =
             map (\<lambda>l. dropWhile g_ascii_isspace (g_key_file_parse_string_as_value True l)) (locations c) \<and>
           (\<forall>i<length (locations c).
              g_utf8_validate (locations c ! i) \<longrightarrow> \<not> leading_form_feed (locations c ! i) \<longrightarrow>
              g_key_file_get_string kf ''Database'' (''location_'' @ show_nat (Suc i)) = Inr (locations c ! i))"
proof -
  let ?kf = "key_file_as_read (save_key_file c)"
  let ?n = "length (locations c)"
  let ?esc = "\<lambda>l. dropWhile g_ascii_isspace (g_key_file_parse_string_as_value True l)"
  from assms(1) have env': "env' = env\<lparr>files := (files env)(build_config_path env PATH_MAX := KeyFileData ?kf)\<rparr>"
    by (auto simp: save_config_def g_key_file_save_to_file_def split: if_splits)
  have 1: "files env' (build_config_path env' PATH_MAX) = KeyFileData ?kf"
    by (simp add: env')
  have e: "group_entries ?kf ''Database'' =
      map (\<lambda>i. (''location_'' @ show_nat (Suc i), ?esc (locations c ! i))) [0..<?n]"
    by (simp add: group_entries_key_file_as_read group_entries_save_key_file [OF assms(2)] comp_def)
  have "map fst (group_entries ?kf ''Database'') = map (\<lambda>i. ''location_'' @ show_nat (Suc i)) [0..<?n]"
    by (simp add: e comp_def)
  also have "\<dots> = map (\<lambda>i. ''location_'' @ show_nat i) (map Suc [0..<?n])"
    by (simp add: comp_def)
  also have "map Suc [0..<?n] = [1..<Suc ?n]"
    by (simp add: map_Suc_upt)
  finally have 2: "map fst (group_entries ?kf ''Database'') = map (\<lambda>i. ''location_'' @ show_nat i) [1..<Suc ?n]" .
  have "map snd (group_entries ?kf ''Database'') = map (\<lambda>i. ?esc (locations c ! i)) [0..<?n]"
    by (simp add: e comp_def)
  also have "\<dots> = map ?esc (map ((!) (locations c)) [0..<?n])"
    by (simp add: comp_def)
  finally have 3: "map snd (group_entries ?kf ''Database'') = map ?esc (locations c)"
    by (simp add: map_nth)
  have 4: "\<forall>i<?n. g_utf8_validate (locations c ! i) \<longrightarrow> \<not> leading_form_feed (locations c ! i) \<longrightarrow>
      g_key_file_get_string ?kf ''Database'' (''location_'' @ show_nat (Suc i)) = Inr (locations c ! i)"
  proof (intro allI impI)
    fix i assume i: "i < ?n" and u: "g_utf8_validate (locations c ! i)"
      and f: "\<not> leading_form_feed (locations c ! i)"
    from i assms(2) have "Suc i < 2 ^ 31" by simp
    from location_key_of_nat [OF this] have k: "location_key (1 + of_nat i) = ''location_'' @ show_nat (Suc i)"
      by simp
    from assms(2) have "?n \<le> 2 ^ 32" by simp
    with i have "raw_value (save_key_file c) ''Database'' (location_key (1 + of_nat i)) =
        Some (g_key_file_parse_string_as_value True (locations c ! i))"
      unfolding save_key_file_eq by (rule raw_value_save_locations_nth)
    then have "raw_value ?kf ''Database'' (''location_'' @ show_nat (Suc i)) =
        Some (g_key_file_parse_string_as_value True (locations c ! i))"
      by (simp add: k raw_value_key_file_as_read skip_space_escaped [OF f])
    from g_key_file_get_string_raw [OF this]
    show "g_key_file_get_string ?kf ''Database'' (''location_'' @ show_nat (Suc i)) = Inr (locations c ! i)"
      by (simp add: parse_string_roundtrip g_utf8_validate_escape [OF u])
  qed
  show ?thesis
    by (rule exI [of _ ?kf]) (intro conjI 1 2 3 4)
qed

theorem save_config_numbers_locations_witness:
  "fst (save_config example_config example_env) = True \<and>
   length (locations example_config) < 2 ^ 31 \<and>
   (\<exists>kf. files (snd (snd (save_config example_config example_env)))
           (build_config_path (snd (snd (save_config example_config example_env))) PATH_MAX) =
         KeyFileData kf \<and>
       map fst (group_entries kf ''Database'') = [''location_1'', ''location_2'', ''location_3''])"
proof -
  have s: "save_config example_config example_env =
      (True, example_config, snd (snd (save_config example_config example_env)))"
    by (simp add: save_config_def g_key_file_save_to_file_def)
  have l: "length (locations example_config) < 2 ^ 31"
    by (simp add: example_config_def)
  have k: "map (\<lambda>i. ''location_'' @ show_nat i) [1..<Suc (length (locations example_config))] =
      [''location_1'', ''location_2'', ''location_3'']"
    by code_simp
  from save_config_numbers_locations [OF s l] obtain kf where
    "files (snd (snd (save_config example_config example_env)))
       (build_config_path (snd (snd (save_config example_config example_env))) PATH_MAX) = KeyFileData kf"
    "map fst (group_entries kf ''Database'') =
       map (\<lambda>i. ''location_'' @ show_nat i) [1..<Suc (length (locations example_config))]"
    by (elim exE conjE)
  then have "files (snd (snd (save_config example_config example_env)))
           (build_config_path (snd (snd (save_config example_config example_env))) PATH_MAX) =
         KeyFileData kf \<and>
       map fst (group_entries kf ''Database'') = [''location_1'', ''location_2'', ''location_3'']"
    by (simp only: k)
  then have r: "\<exists>kf. files (snd (snd (save_config example_config example_env)))
           (build_config_path (snd (snd (save_config example_config example_env))) PATH_MAX) =
         KeyFileData kf \<and>
       map fst (group_entries kf ''Database'') = [''location_1'', ''location_2'', ''location_3'']"
    by (rule exI [of _ kf])
  have f: "fst (save_config example_config example_env) = True"
    by (simp add: save_config_def g_key_file_save_to_file_def)
  show ?thesis by (intro conjI f l r)
qed

text \<open>
  C8. When \<^verbatim>\<open>save_config\<close> returns false, the record is the one that was passed in, in
  every field, the locations included.
\<close>

theorem save_config_leaves_record:
  assumes "save_config c env = (False, c', env')"
  shows "c' = c"
  using assms by (auto simp: save_config_def split: prod.splits bool.splits)

theorem save_config_leaves_record_witness:
  "fst (save_config example_config readonly_env) = False \<and>
   fst (snd (save_config example_config readonly_env)) = example_config"
proof -
  have s: "save_config example_config readonly_env =
      (False, fst (snd (save_config example_config readonly_env)),
       snd (snd (save_config example_config readonly_env)))"
    by (simp add: save_config_def g_key_file_save_to_file_def readonly_env_def)
  have r: "fst (snd (save_config example_config readonly_env)) = example_config"
    by (rule save_config_leaves_record [OF s])
  have f: "fst (save_config example_config readonly_env) = False"
    by (simp add: save_config_def g_key_file_save_to_file_def readonly_env_def)
  show ?thesis by (intro conjI f r)
qed

end
